theory Spec2Isabelle
  imports Complex_Main "HOL-Library.Sublist"
begin

section \<open>Python text\<close>

text \<open>
  A Python \<open>str\<close> is a list of Unicode code points, each an integer; \<open>asc\<close> turns an
  ASCII literal into such a list. What Python reads from the Unicode database is a
  parameter of the model, the record \<open>unicode\<close>: \<open>str.lower\<close> and \<open>str.upper\<close> (on whole
  strings, since they may change the length and look at the context), white space, the
  alphanumeric code points, the decimal digits with their values, and NFKC normalisation
  (on whole strings, since it composes neighbours). On ASCII every one of them is fixed
  by the tables written out below, and the parameter is consulted only for text that has
  a code point above 127. Every theorem holds for every choice of the parameter.
\<close>

type_synonym ustring = "int list"

definition asc :: "string \<Rightarrow> ustring" where
  "asc s = map of_char s"

record unicode =
  u_lower :: "ustring \<Rightarrow> ustring"
  u_upper :: "ustring \<Rightarrow> ustring"
  u_isspace :: "int \<Rightarrow> bool"
  u_isalnum :: "int \<Rightarrow> bool"
  u_decimal :: "int \<Rightarrow> int option"
  u_nfkc :: "ustring \<Rightarrow> ustring"

definition ascii_text :: "ustring \<Rightarrow> bool" where
  "ascii_text s = list_all (\<lambda>c. c < 128) s"

definition is_upper :: "int \<Rightarrow> bool" where
  "is_upper c = (65 \<le> c \<and> c \<le> 90)"

definition is_lower :: "int \<Rightarrow> bool" where
  "is_lower c = (97 \<le> c \<and> c \<le> 122)"

text \<open>White space, as \<open>str.strip()\<close>, \<open>str.split()\<close> and the class \<open>\s\<close> of a \<open>str\<close>
  pattern see it. On ASCII: tab, line feed, vertical tab, form feed, carriage return, the
  four separators 28..31 and the space.\<close>

definition ascii_space :: "int \<Rightarrow> bool" where
  "ascii_space c = ((9 \<le> c \<and> c \<le> 13) \<or> (28 \<le> c \<and> c \<le> 32))"

definition is_space :: "unicode \<Rightarrow> int \<Rightarrow> bool" where
  "is_space U c = (if c < 128 then ascii_space c else u_isspace U c)"



text \<open>The class \<open>\w\<close> of a \<open>str\<close> pattern: alphanumeric code points and the underscore.\<close>

definition is_word :: "unicode \<Rightarrow> int \<Rightarrow> bool" where
  "is_word U c =
     (if c < 128 then is_upper c \<or> is_lower c \<or> (48 \<le> c \<and> c \<le> 57) \<or> c = 95
      else u_isalnum U c)"

definition lower_char :: "int \<Rightarrow> int" where
  "lower_char c = (if is_upper c then c + 32 else c)"

definition upper_char :: "int \<Rightarrow> int" where
  "upper_char c = (if is_lower c then c - 32 else c)"

definition py_lower :: "unicode \<Rightarrow> ustring \<Rightarrow> ustring" where
  "py_lower U s = (if ascii_text s then map lower_char s else u_lower U s)"

definition py_upper :: "unicode \<Rightarrow> ustring \<Rightarrow> ustring" where
  "py_upper U s = (if ascii_text s then map upper_char s else u_upper U s)"

definition lstrip :: "unicode \<Rightarrow> ustring \<Rightarrow> ustring" where
  "lstrip U s = dropWhile (is_space U) s"

definition rstrip :: "unicode \<Rightarrow> ustring \<Rightarrow> ustring" where
  "rstrip U s = rev (dropWhile (is_space U) (rev s))"

definition py_strip :: "unicode \<Rightarrow> ustring \<Rightarrow> ustring" where
  "py_strip U s = rstrip U (lstrip U s)"

definition startswith :: "ustring \<Rightarrow> ustring \<Rightarrow> bool" where
  "startswith s p = (take (length p) s = p)"

definition endswith :: "ustring \<Rightarrow> ustring \<Rightarrow> bool" where
  "endswith s p = (length p \<le> length s \<and> drop (length s - length p) s = p)"

text \<open>\<open>sub in s\<close>: \<open>sub\<close> occurs in \<open>s\<close> as a contiguous piece.\<close>

fun py_in :: "ustring \<Rightarrow> ustring \<Rightarrow> bool" where
  "py_in sub [] = (sub = [])"
| "py_in sub (c # s) = (take (length sub) (c # s) = sub \<or> py_in sub s)"

text \<open>\<open>s.split()\<close>: the maximal runs of code points that are not white space, in order.\<close>

function py_split :: "unicode \<Rightarrow> ustring \<Rightarrow> ustring list" where
  "py_split U s =
     (case dropWhile (is_space U) s of
        [] \<Rightarrow> []
      | c # t \<Rightarrow> takeWhile (\<lambda>x. \<not> is_space U x) (c # t)
                 # py_split U (dropWhile (\<lambda>x. \<not> is_space U x) (c # t)))"
  by pat_completeness auto
termination
proof (relation "measure (\<lambda>(U, s). length s)")
  show "wf (measure (\<lambda>(U, s). length s))" by simp
next
  fix U :: unicode and s :: ustring and c t
  assume h: "dropWhile (is_space U) s = c # t"
  have "\<not> is_space U c" using h by (metis hd_dropWhile list.sel(1) list.distinct(1))
  then have "length (dropWhile (\<lambda>x. \<not> is_space U x) (c # t)) < length (c # t)"
    by (simp add: le_imp_less_Suc length_dropWhile_le)
  also have "length (c # t) \<le> length s"
    using h length_dropWhile_le [of "is_space U" s] by simp
  finally show "((U, dropWhile (\<lambda>x. \<not> is_space U x) (c # t)), (U, s))
                  \<in> measure (\<lambda>(U, s). length s)" by simp
qed

declare py_split.simps [simp del]

text \<open>\<open>' '.join(words)\<close>.\<close>

fun join_space :: "ustring list \<Rightarrow> ustring" where
  "join_space [] = []"
| "join_space [w] = w"
| "join_space (w # v # ws) = w @ 32 # join_space (v # ws)"

section \<open>Name normalisation (kb\_manager.clean\_name\_for\_matching)\<close>

definition prefixes_to_remove :: "ustring list" where
  "prefixes_to_remove =
     map asc [''mr.'', ''mrs.'', ''ms.'', ''en.'', ''pn.'', ''dr.'', ''prof.'']"

definition suffixes_to_remove :: "ustring list" where
  "suffixes_to_remove =
     map asc [''sdn bhd'', ''sdn.bhd.'', ''bhd'', ''pte ltd'', ''ltd'', ''inc'', ''corp'']"

text \<open>One pass over the prefix list, each prefix tried once, in list order.\<close>

definition remove_prefixes :: "unicode \<Rightarrow> ustring \<Rightarrow> ustring" where
  "remove_prefixes U cleaned =
     fold (\<lambda>prefix c. if startswith c prefix then py_strip U (drop (length prefix) c) else c)
          prefixes_to_remove cleaned"

definition remove_suffixes :: "unicode \<Rightarrow> ustring \<Rightarrow> ustring" where
  "remove_suffixes U cleaned =
     fold (\<lambda>suffix c. if endswith c suffix then py_strip U (take (length c - length suffix) c) else c)
          suffixes_to_remove cleaned"

text \<open>The character class of \<open>re.sub(r'[^\w\s\u4e00-\u9fff@&().-]', ' ', cleaned)\<close>:
  word characters, white space, the range U+4E00..U+9FFF (19968..40959) and the listed punctuation are
  kept, anything else becomes a space.\<close>

definition kept_char :: "unicode \<Rightarrow> int \<Rightarrow> bool" where
  "kept_char U c =
     (is_word U c \<or> is_space U c \<or> (19968 \<le> c \<and> c \<le> 40959) \<or> c \<in> set (asc ''@&().-''))"

definition re_sub_special :: "unicode \<Rightarrow> ustring \<Rightarrow> ustring" where
  "re_sub_special U s = map (\<lambda>c. if kept_char U c then c else 32) s"

text \<open>\<open>unicodedata.normalize('NFKC', s)\<close>: ASCII text is in normal form already.\<close>

definition normalize_NFKC :: "unicode \<Rightarrow> ustring \<Rightarrow> ustring" where
  "normalize_NFKC U s = (if ascii_text s then s else u_nfkc U s)"

definition clean_name_for_matching :: "unicode \<Rightarrow> ustring \<Rightarrow> ustring" where
  "clean_name_for_matching U name =
     (if name = [] then []
      else let cleaned = py_strip U (py_lower U name);
               cleaned = remove_prefixes U cleaned;
               cleaned = remove_suffixes U cleaned;
               cleaned = re_sub_special U cleaned;
               cleaned = normalize_NFKC U cleaned
           in join_space (py_split U cleaned))"

text \<open>Auxiliary notions for reasoning about the normaliser: a list of words as
  \<open>str.split()\<close> returns them, and a text that lower-casing, the character filter and
  NFKC normalisation all leave as it is.\<close>

definition words_ok :: "unicode \<Rightarrow> ustring list \<Rightarrow> bool" where
  "words_ok U ws = (\<forall>w\<in>set ws. w \<noteq> [] \<and> (\<forall>c\<in>set w. \<not> is_space U c))"

definition unicode_stable :: "unicode \<Rightarrow> ustring \<Rightarrow> bool" where
  "unicode_stable U y \<longleftrightarrow>
     py_lower U y = y \<and> re_sub_special U y = y \<and> normalize_NFKC U y = y"

section \<open>Python values and numbers\<close>

text \<open>
  Python floats are modelled as reals: the rounding of IEEE arithmetic, infinities and
  NaN are outside the model. A spreadsheet cell or a JSON field holds a \<open>pyval\<close>.
  Three library behaviours are parameters of the model, collected in \<open>builtins\<close>:
  \<open>float(s)\<close> on text (\<open>None\<close> stands for \<open>ValueError\<close>), \<open>str(x)\<close> on a number,
  and the validation of a \<open>bool\<close> field by pydantic (\<open>None\<close> stands for
  \<open>ValidationError\<close>).
\<close>

datatype pyval = PNone | PBool bool | PNum real | PStr ustring

datatype py_error = ValueError | TypeError | IndexError | ValidationError | Exception string

record builtins =
  float_of_str :: "ustring \<Rightarrow> real option"
  str_of_num :: "real \<Rightarrow> ustring"
  validate_bool :: "pyval \<Rightarrow> bool option"

fun truthy :: "pyval \<Rightarrow> bool" where
  "truthy PNone = False"
| "truthy (PBool b) = b"
| "truthy (PNum x) = (x \<noteq> 0)"
| "truthy (PStr s) = (s \<noteq> [])"

fun py_float :: "builtins \<Rightarrow> pyval \<Rightarrow> py_error + real" where
  "py_float py PNone = Inl TypeError"
| "py_float py (PBool b) = Inr (if b then 1 else 0)"
| "py_float py (PNum x) = Inr x"
| "py_float py (PStr s) = (case float_of_str py s of None \<Rightarrow> Inl ValueError | Some x \<Rightarrow> Inr x)"

fun py_str :: "builtins \<Rightarrow> pyval \<Rightarrow> ustring" where
  "py_str py PNone = asc ''None''"
| "py_str py (PBool b) = (if b then asc ''True'' else asc ''False'')"
| "py_str py (PNum x) = str_of_num py x"
| "py_str py (PStr s) = s"


text \<open>\<open>round(x, 2)\<close>: to the nearest multiple of 0.01, a tie going to the even one.\<close>

definition round_half_even :: "real \<Rightarrow> int" where
  "round_half_even y =
     (let f = \<lfloor>y\<rfloor>; d = y - of_int f
      in if d < 1/2 then f else if 1/2 < d then f + 1 else if even f then f else f + 1)"

definition py_round2 :: "real \<Rightarrow> real" where
  "py_round2 x = of_int (round_half_even (x * 100)) / 100"


section \<open>Data models (data\_models.py)\<close>

text \<open>\<open>Customer\<close>; the fields \<open>confidence_score\<close> and \<open>original_customer_name\<close> are never
  set by the code modelled here and are left out.\<close>

record customer =
  name :: ustring
  price_per_ton :: real
  formula :: ustring
  company_amount :: "real option"
  worker_amount :: "real option"


section \<open>Loading the knowledge base (kb\_manager.load\_from\_excel)\<close>

text \<open>The worksheet is its list of rows, each a list of cell values; the first row is
  searched for headers. \<open>col_mappings\<close> is the dictionary of column indices found.\<close>

record col_mappings =
  col_name :: "nat option"
  col_price_per_ton :: "nat option"
  col_formula :: "nat option"
  col_company_amount :: "nat option"
  col_worker_amount :: "nat option"

definition no_mappings :: col_mappings where
  "no_mappings = \<lparr>col_name = None, col_price_per_ton = None, col_formula = None,
                   col_company_amount = None, col_worker_amount = None\<rparr>"

definition header_cell :: "unicode \<Rightarrow> col_mappings \<Rightarrow> nat \<times> pyval \<Rightarrow> col_mappings" where
  "header_cell U m ic =
     (case snd ic of
        PStr v \<Rightarrow>
          if v = [] then m
          else let header_text = py_strip U (py_lower U v); col_idx = fst ic
               in if py_in (asc ''customer'') header_text \<or> py_in (asc ''name'') header_text
                    then m\<lparr>col_name := Some col_idx\<rparr>
                  else if py_in (asc ''price'') header_text \<or> py_in (asc ''ton'') header_text
                    then m\<lparr>col_price_per_ton := Some col_idx\<rparr>
                  else if py_in (asc ''formula'') header_text
                    then m\<lparr>col_formula := Some col_idx\<rparr>
                  else if py_in (asc ''company'') header_text \<and> \<not> py_in (asc ''worker'') header_text
                    then m\<lparr>col_company_amount := Some col_idx\<rparr>
                  else if py_in (asc ''worker'') header_text
                    then m\<lparr>col_worker_amount := Some col_idx\<rparr>
                  else m
      | _ \<Rightarrow> m)"

definition scan_header :: "unicode \<Rightarrow> pyval list \<Rightarrow> col_mappings" where
  "scan_header U row = foldl (header_cell U) no_mappings (enumerate 0 row)"

definition cell_at :: "pyval list \<Rightarrow> nat \<Rightarrow> py_error + pyval" where
  "cell_at row i = (if i < length row then Inr (row ! i) else Inl IndexError)"

definition read_price :: "builtins \<Rightarrow> col_mappings \<Rightarrow> pyval list \<Rightarrow> py_error + real" where
  "read_price py m row =
     (case col_price_per_ton m of
        None \<Rightarrow> Inr 0
      | Some i \<Rightarrow>
          (case cell_at row i of
             Inl e \<Rightarrow> Inl e
           | Inr v \<Rightarrow>
               if v \<noteq> PNone
               then (case py_float py v of Inl e \<Rightarrow> Inr 0 | Inr x \<Rightarrow> Inr x)
               else Inr 0))"

definition read_formula ::
  "unicode \<Rightarrow> builtins \<Rightarrow> col_mappings \<Rightarrow> pyval list \<Rightarrow> py_error + ustring" where
  "read_formula U py m row =
     (case col_formula m of
        None \<Rightarrow> Inr (asc ''WEIGHT_PRICE'')
      | Some i \<Rightarrow>
          (case cell_at row i of
             Inl e \<Rightarrow> Inl e
           | Inr v \<Rightarrow>
               if truthy v then Inr (py_strip U (py_str py v)) else Inr (asc ''WEIGHT_PRICE'')))"

definition read_company :: "builtins \<Rightarrow> col_mappings \<Rightarrow> pyval list \<Rightarrow> py_error + real option" where
  "read_company py m row =
     (case col_company_amount m of
        None \<Rightarrow> Inr None
      | Some i \<Rightarrow>
          (case cell_at row i of
             Inl e \<Rightarrow> Inl e
           | Inr v \<Rightarrow>
               if v \<noteq> PNone
               then (case py_float py v of
                       Inl e \<Rightarrow> Inr None
                     | Inr company_value \<Rightarrow> if 0 < company_value then Inr (Some company_value) else Inr None)
               else Inr None))"

definition read_worker ::
  "builtins \<Rightarrow> col_mappings \<Rightarrow> pyval list \<Rightarrow> real \<Rightarrow> real option \<Rightarrow> py_error + real option" where
  "read_worker py m row price company =
     (case col_worker_amount m of
        None \<Rightarrow> Inr None
      | Some i \<Rightarrow>
          (case cell_at row i of
             Inl e \<Rightarrow> Inl e
           | Inr v \<Rightarrow>
               if v \<noteq> PNone
               then (case py_float py v of
                       Inl e \<Rightarrow>
                         (case company of
                            Some c \<Rightarrow> if 0 < price then Inr (Some (py_round2 (price - c))) else Inr None
                          | None \<Rightarrow> Inr None)
                     | Inr worker_value \<Rightarrow>
                         if 0 < worker_value then Inr (Some (py_round2 worker_value)) else Inr None)
               else Inr None))"

text \<open>The body of the loop over data rows: \<open>None\<close> is \<open>continue\<close>, taken for a row with
  no name and for any exception raised while the row is read.\<close>

definition read_row ::
  "unicode \<Rightarrow> builtins \<Rightarrow> col_mappings \<Rightarrow> pyval list \<Rightarrow> customer option" where
  "read_row U py m row =
     (case col_name m of
        None \<Rightarrow> None
      | Some ni \<Rightarrow>
          (case cell_at row ni of
             Inl e \<Rightarrow> None
           | Inr name_cell \<Rightarrow>
               if \<not> truthy name_cell \<or> py_strip U (py_str py name_cell) = [] then None
               else
                 (case read_price py m row of
                    Inl e \<Rightarrow> None
                  | Inr price \<Rightarrow>
                 (case read_formula U py m row of
                    Inl e \<Rightarrow> None
                  | Inr fml \<Rightarrow>
                 (case read_company py m row of
                    Inl e \<Rightarrow> None
                  | Inr company \<Rightarrow>
                 (case read_worker py m row price company of
                    Inl e \<Rightarrow> None
                  | Inr worker \<Rightarrow>
                      Some \<lparr>name = py_strip U (py_str py name_cell),
                            price_per_ton = price,
                            formula = fml,
                            company_amount = company,
                            worker_amount =
                              (case (worker, company) of
                                 (None, Some c) \<Rightarrow>
                                    if 0 < price then Some (py_round2 (price - c)) else None
                               | _ \<Rightarrow> worker)\<rparr>))))))"

definition header_found :: "col_mappings \<Rightarrow> bool" where
  "header_found m \<longleftrightarrow> m \<noteq> no_mappings"

definition load_from_excel ::
  "unicode \<Rightarrow> builtins \<Rightarrow> pyval list list \<Rightarrow> py_error + customer list" where
  "load_from_excel U py sheet =
     (let m = (case sheet of [] \<Rightarrow> no_mappings | first_row # _ \<Rightarrow> scan_header U first_row)
      in if \<not> header_found m
         then Inl (Exception ''Error loading Excel: Could not find header row in Excel file'')
         else let customers = List.map_filter (read_row U py m) (tl sheet)
              in if customers = []
                 then Inl (Exception ''Error loading Excel: No valid customer data found in Excel file'')
                 else Inr customers)"

section \<open>Fuzzy search (kb\_manager.find\_customer\_matches, search\_similar\_customers)\<close>

text \<open>
  \<open>process.extract(query, choices, scorer=fuzz.ratio, limit=k)\<close> of the fuzzywuzzy library
  is a parameter \<open>extract\<close>: it returns pairs of a choice and an integer score, and
  \<open>None\<close> stands for an exception raised inside it. The \<open>metadata\<close> entry of a result,
  which no caller reads, is left out.
\<close>

type_synonym extractor = "ustring \<Rightarrow> ustring list \<Rightarrow> nat \<Rightarrow> (ustring \<times> int) list option"

record customer_data_item =
  cd_original_name :: ustring
  cleaned_name :: ustring
  cd_customer :: customer

record kb_match =
  m_customer_name :: ustring
  m_price_per_ton :: real
  m_formula :: ustring
  m_company_amount :: "real option"
  m_worker_amount :: "real option"
  m_confidence_score :: real

definition make_customer_data :: "unicode \<Rightarrow> customer list \<Rightarrow> customer_data_item list" where
  "make_customer_data U customers =
     map (\<lambda>c. \<lparr>cd_original_name = name c,
                cleaned_name = clean_name_for_matching U (name c),
                cd_customer = c\<rparr>) customers"

definition result_of :: "customer \<Rightarrow> int \<Rightarrow> kb_match" where
  "result_of c score =
     \<lparr>m_customer_name = name c,
      m_price_per_ton = price_per_ton c,
      m_formula = formula c,
      m_company_amount = company_amount c,
      m_worker_amount = worker_amount c,
      m_confidence_score = of_int score / 100\<rparr>"

text \<open>The inner loop: the first item whose cleaned name equals the match string, then
  \<open>break\<close>; no item, no result.\<close>

fun find_corresponding :: "customer_data_item list \<Rightarrow> ustring \<Rightarrow> customer option" where
  "find_corresponding [] match_name = None"
| "find_corresponding (item # items) match_name =
     (if cleaned_name item = match_name then Some (cd_customer item)
      else find_corresponding items match_name)"

fun build_results :: "customer_data_item list \<Rightarrow> (ustring \<times> int) list \<Rightarrow> kb_match list" where
  "build_results customer_data [] = []"
| "build_results customer_data ((match_name, score) # matches) =
     (case find_corresponding customer_data match_name of
        Some c \<Rightarrow> result_of c score # build_results customer_data matches
      | None \<Rightarrow> build_results customer_data matches)"

definition find_customer_matches ::
  "unicode \<Rightarrow> extractor \<Rightarrow> customer list \<Rightarrow> ustring \<Rightarrow> nat \<Rightarrow> kb_match list" where
  "find_customer_matches U extract customers extracted_name k =
     (if customers = [] then []
      else let cleaned_extracted = clean_name_for_matching U extracted_name;
               customer_data = make_customer_data U customers;
               cleaned_names = map cleaned_name customer_data
           in case extract cleaned_extracted cleaned_names k of
                None \<Rightarrow> []
              | Some matches \<Rightarrow> build_results customer_data matches)"

definition search_similar_customers ::
  "unicode \<Rightarrow> extractor \<Rightarrow> customer list \<Rightarrow> ustring \<Rightarrow> nat \<Rightarrow> kb_match list" where
  "search_similar_customers U extract customers query top_k =
     (if customers = [] then [] else find_customer_matches U extract customers query top_k)"

section \<open>Arbitration (client\_models.find\_best\_customer\_match)\<close>

text \<open>
  The extracted name is a \<open>str\<close> and the extracted price a \<open>float\<close> or \<open>None\<close>, as the
  signature declares them and as the one caller, \<open>process_single_image\<close>, passes them. The
  knowledge-base manager is present, as \<open>main.get_components\<close> builds the client, and
  its catalogue is the list \<open>customers\<close>. The calls of \<open>print\<close> are left out.
\<close>

record candidate =
  customer_name :: ustring
  similarity_score :: real
  customer_price :: real
  extracted_price :: "real option"
  exact_price_match :: bool
  combined_confidence :: real

text \<open>The result dictionary: its \<open>status\<close> is the constructor.\<close>

datatype decision =
    no_name_provided (confidence: real)
  | new_customer_detected (confidence: real)
  | match_found (matched_customer_name: ustring) (confidence_score: real)
      (original_name: ustring) (price_match: bool)
      (d_extracted_price: "real option") (d_customer_price: real)

text \<open>\<open>extracted_price and extracted_price > 0 and customer_price > 0\<close>, then
  \<open>abs(extracted_price - customer_price) < 0.01\<close>.\<close>

definition is_exact_price_match :: "real option \<Rightarrow> real \<Rightarrow> bool" where
  "is_exact_price_match price cust_price =
     (case price of
        None \<Rightarrow> False
      | Some p \<Rightarrow> p \<noteq> 0 \<and> 0 < p \<and> 0 < cust_price \<and> \<bar>p - cust_price\<bar> < 0.01)"

definition make_candidate :: "real option \<Rightarrow> kb_match \<Rightarrow> candidate" where
  "make_candidate price m =
     (let exact = is_exact_price_match price (m_price_per_ton m)
      in \<lparr>customer_name = m_customer_name m,
          similarity_score = m_confidence_score m,
          customer_price = m_price_per_ton m,
          extracted_price = price,
          exact_price_match = exact,
          combined_confidence =
            (if exact then m_confidence_score m * 0.95 else m_confidence_score m * 0.7)\<rparr>)"

text \<open>The loop over the search results, appending to one of two lists.\<close>

fun separate ::
  "real option \<Rightarrow> kb_match list \<Rightarrow> candidate list \<times> candidate list
     \<Rightarrow> candidate list \<times> candidate list" where
  "separate price [] acc = acc"
| "separate price (m # ms) (exact_price_matches, name_only_matches) =
     (let c = make_candidate price m
      in if exact_price_match c
         then separate price ms (exact_price_matches @ [c], name_only_matches)
         else separate price ms (exact_price_matches, name_only_matches @ [c]))"

text \<open>\<open>xs.sort(key=..., reverse=True)\<close>: descending and stable.\<close>

definition sort_desc :: "candidate list \<Rightarrow> candidate list" where
  "sort_desc xs = sort_key (\<lambda>c. - combined_confidence c) xs"

definition all_candidates_of :: "real option \<Rightarrow> kb_match list \<Rightarrow> candidate list" where
  "all_candidates_of price vector_results =
     (case separate price vector_results ([], []) of
        (exact_price_matches, name_only_matches) \<Rightarrow>
          (if exact_price_matches \<noteq> [] then sort_desc exact_price_matches else [])
          @ (if name_only_matches \<noteq> []
             then filter (\<lambda>c. 0.6 < combined_confidence c) (sort_desc name_only_matches)
             else []))"

text \<open>
  The arbiter: \<open>self.model\<close> is absent (\<open>None\<close>) or a generator whose reply depends on
  the prompt, that is on the name, the candidates and the price. \<open>Raises\<close> stands for
  any exception inside the \<open>try\<close> block.
\<close>

datatype reply = Raises | Text ustring

type_synonym gen_model = "ustring \<Rightarrow> candidate list \<Rightarrow> real option \<Rightarrow> reply"

definition first_exact :: "candidate list \<Rightarrow> candidate option" where
  "first_exact candidates = find exact_price_match candidates"

text \<open>The fallback of the unavailable and of the failing arbiter.\<close>

definition fallback_choice :: "candidate list \<Rightarrow> ustring option" where
  "fallback_choice candidates =
     (case first_exact candidates of
        Some e \<Rightarrow> Some (customer_name e)
      | None \<Rightarrow> (case candidates of [] \<Rightarrow> None | c # _ \<Rightarrow> Some (customer_name c)))"

definition names_candidate :: "unicode \<Rightarrow> ustring \<Rightarrow> candidate \<Rightarrow> bool" where
  "names_candidate U ai_response c =
     py_in (py_lower U (customer_name c)) (py_lower U ai_response)"

definition ai_choose_best_match_with_price ::
  "unicode \<Rightarrow> gen_model option \<Rightarrow> ustring \<Rightarrow> candidate list \<Rightarrow> real option
     \<Rightarrow> ustring option" where
  "ai_choose_best_match_with_price U model original candidates price =
     (case model of
        None \<Rightarrow> fallback_choice candidates
      | Some generate \<Rightarrow>
          if candidates = [] then fallback_choice candidates
          else
            (case generate original candidates price of
               Raises \<Rightarrow> fallback_choice candidates
             | Text t \<Rightarrow>
                 (let ai_response = py_strip U t
                  in if py_upper U ai_response = asc ''NONE'' then None
                     else (case find (names_candidate U ai_response) candidates of
                             Some c \<Rightarrow> Some (customer_name c)
                           | None \<Rightarrow>
                               (case first_exact candidates of
                                  Some e \<Rightarrow> Some (customer_name e)
                                | None \<Rightarrow> None)))))"

text \<open>
  The last step. An empty chosen name is falsy. Were no top candidate to carry the chosen
  name, \<open>chosen_candidate\<close> would be \<open>None\<close> and the rejection message would subscript
  it: \<open>TypeError\<close>.
\<close>

definition decide ::
  "ustring \<Rightarrow> real option \<Rightarrow> candidate list \<Rightarrow> ustring option \<Rightarrow> py_error + decision" where
  "decide extracted_name price top_candidates ai_choice =
     (case ai_choice of
        None \<Rightarrow> Inr (new_customer_detected 0)
      | Some n \<Rightarrow>
          if n = [] then Inr (new_customer_detected 0)
          else
            (case find (\<lambda>c. customer_name c = n) top_candidates of
               None \<Rightarrow> Inl TypeError
             | Some chosen \<Rightarrow>
                 if 0.5 \<le> combined_confidence chosen
                 then Inr (match_found n (combined_confidence chosen) extracted_name
                            (exact_price_match chosen) price (customer_price chosen))
                 else Inr (new_customer_detected 0)))"

definition find_best_customer_match ::
  "unicode \<Rightarrow> extractor \<Rightarrow> customer list \<Rightarrow> gen_model option \<Rightarrow> ustring \<Rightarrow> real option
     \<Rightarrow> py_error + decision" where
  "find_best_customer_match U extract customers model extracted_name price =
     (if extracted_name = [] then Inr (no_name_provided 0)
      else let vector_results = search_similar_customers U extract customers extracted_name 10
           in if vector_results = [] then Inr (new_customer_detected 0)
              else let all_candidates = all_candidates_of price vector_results
                   in if all_candidates = [] then Inr (new_customer_detected 0)
                      else let top_candidates = take 3 all_candidates;
                               ai_choice = ai_choose_best_match_with_price U model extracted_name
                                             top_candidates price
                           in decide extracted_name price top_candidates ai_choice)"

section \<open>Reconciliation (main.process\_invoices, the loop over processed records)\<close>











section \<open>The main data sheet (excel\_creator.\_create\_main\_data\_sheet)\<close>








section \<open>Auxiliary definitions and sample data\<close>

text \<open>The positive number found in the worker column of a row, if there is one.\<close>

definition worker_cell :: "builtins \<Rightarrow> col_mappings \<Rightarrow> pyval list \<Rightarrow> real option" where
  "worker_cell py m row =
     (case col_worker_amount m of
        None \<Rightarrow> None
      | Some i \<Rightarrow>
          if i < length row \<and> row ! i \<noteq> PNone
          then (case py_float py (row ! i) of
                  Inl e \<Rightarrow> None
                | Inr w \<Rightarrow> if 0 < w then Some w else None)
          else None)"

text \<open>
  Sample values on which the theorems below are instantiated. \<open>sample_unicode\<close> is a
  fragment of the Unicode database, enough for the examples. The code points above 127
  that occur in them are U+2102 (8450, DOUBLE-STRUCK CAPITAL C): a letter, not white space
  and not a digit, without a lower-case or upper-case mapping, whose NFKC form is the
  letter \<open>C\<close> (67); and the CJK ideographs U+4E2D and U+56FD (20013, 22269): letters, not
  white space and not digits, which lower-casing, upper-casing and NFKC leave as they are.
\<close>

definition sample_unicode :: unicode where
  "sample_unicode =
     \<lparr>u_lower = (\<lambda>s. s), u_upper = (\<lambda>s. s), u_isspace = (\<lambda>c. False),
      u_isalnum = (\<lambda>c. c = 8450 \<or> (19968 \<le> c \<and> c \<le> 40959)), u_decimal = (\<lambda>c. None),
      u_nfkc = map (\<lambda>c. if c = 8450 then 67 else c)\<rparr>"

definition sample_py :: builtins where
  "sample_py = \<lparr>float_of_str = (\<lambda>s. None), str_of_num = (\<lambda>x. asc ''0''),
                validate_bool = (\<lambda>v. case v of PBool b \<Rightarrow> Some b | _ \<Rightarrow> None)\<rparr>"

definition sample_customers :: "customer list" where
  "sample_customers =
     [\<lparr>name = asc ''Ali Trading Sdn Bhd'', price_per_ton = 100, formula = asc ''WEIGHT_PRICE'',
       company_amount = None, worker_amount = None\<rparr>,
      \<lparr>name = asc ''Ali Trading Bhd'', price_per_ton = 80, formula = asc ''WEIGHT_PRICE'',
       company_amount = None, worker_amount = None\<rparr>,
      \<lparr>name = asc ''Abu Transport'', price_per_ton = 80, formula = asc ''WEIGHT_PRICE'',
       company_amount = None, worker_amount = None\<rparr>]"

text \<open>A stand-in for the fuzzy scorer: 100 for an equal string, 60 otherwise.\<close>

definition sample_extract :: extractor where
  "sample_extract query choices k =
     Some (take k (map (\<lambda>c. (c, if c = query then 100 else 60)) choices))"

text \<open>An arbiter whose answer names no candidate and is not \<open>NONE\<close>.\<close>

definition undecided_model :: gen_model where
  "undecided_model original candidates price = Text (asc ''no idea'')"

text \<open>What the search returns for the query \<open>ali trading\<close> on the sample catalogue,
  and the candidates made from it at the prices 80 and 70.\<close>

definition sample_results :: "kb_match list" where
  "sample_results =
     [result_of (sample_customers ! 0) 100, result_of (sample_customers ! 0) 100,
      result_of (sample_customers ! 2) 60]"

definition abu80 :: candidate where
  "abu80 = \<lparr>customer_name = asc ''Abu Transport'', similarity_score = 0.6, customer_price = 80,
             extracted_price = Some 80, exact_price_match = True, combined_confidence = 0.57\<rparr>"

definition ali80 :: candidate where
  "ali80 = \<lparr>customer_name = asc ''Ali Trading Sdn Bhd'', similarity_score = 1,
             customer_price = 100, extracted_price = Some 80, exact_price_match = False,
             combined_confidence = 0.7\<rparr>"

definition ali70 :: candidate where
  "ali70 = \<lparr>customer_name = asc ''Ali Trading Sdn Bhd'', similarity_score = 1,
             customer_price = 100, extracted_price = Some 70, exact_price_match = False,
             combined_confidence = 0.7\<rparr>"

definition sample_sheet :: "pyval list list" where
  "sample_sheet =
     [[PStr (asc ''Customer Name''), PStr (asc ''Price per ton''), PStr (asc ''Company''),
       PStr (asc ''Worker'')],
      [PStr (asc ''Ali Trading''), PNum 100, PNum 60, PNum 30],
      [PStr (asc ''Abu Transport''), PNum 80, PNum 50, PNone]]"

definition sample_loaded :: "customer list" where
  "sample_loaded =
     [\<lparr>name = asc ''Ali Trading'', price_per_ton = 100, formula = asc ''WEIGHT_PRICE'',
       company_amount = Some 60, worker_amount = Some 30\<rparr>,
      \<lparr>name = asc ''Abu Transport'', price_per_ton = 80, formula = asc ''WEIGHT_PRICE'',
       company_amount = Some 50, worker_amount = Some 30\<rparr>]"




text \<open>A price sheet whose rows load as the sample catalogue.\<close>

definition catalogue_sheet :: "pyval list list" where
  "catalogue_sheet =
     [[PStr (asc ''Customer Name''), PStr (asc ''Price per ton'')],
      [PStr (asc ''Ali Trading Sdn Bhd''), PNum 100],
      [PStr (asc ''Ali Trading Bhd''), PNum 80],
      [PStr (asc ''Abu Transport''), PNum 80]]"


section \<open>Properties of the name normaliser\<close>

lemma words_ok_Nil: "words_ok U []"
  by (simp add: words_ok_def)

lemma words_ok_Cons:
  "words_ok U (w # ws) \<longleftrightarrow> w \<noteq> [] \<and> (\<forall>c\<in>set w. \<not> is_space U c) \<and> words_ok U ws"
  by (simp add: words_ok_def)

lemma py_split_space_cons: "is_space U c \<Longrightarrow> py_split U (c # s) = py_split U s"
  by (subst py_split.simps, subst (2) py_split.simps) simp

lemma py_split_Nil: "py_split U [] = []"
  by (subst py_split.simps) simp

lemma py_split_word:
  assumes "w \<noteq> []" "\<forall>c\<in>set w. \<not> is_space U c" "r = [] \<or> is_space U (hd r)"
  shows "py_split U (w @ r) = w # py_split U r"
proof -
  obtain c t where w: "w = c # t" using assms(1) by (cases w) auto
  have c: "\<not> is_space U c" using assms(2) w by simp
  have d: "dropWhile (is_space U) (w @ r) = c # (t @ r)" using w c by simp
  have tw: "takeWhile (\<lambda>x. \<not> is_space U x) (w @ r) = w"
    using assms(2,3) by (cases r) (auto simp: takeWhile_append2)
  have dw: "dropWhile (\<lambda>x. \<not> is_space U x) (w @ r) = r"
    using assms(2,3) by (cases r) (auto simp: dropWhile_append2)
  show ?thesis
    using d tw dw w by (subst py_split.simps) simp
qed

lemma py_split_join: "words_ok U ws \<Longrightarrow> py_split U (join_space ws) = ws"
proof (induction ws rule: join_space.induct)
  case 1
  then show ?case by (simp add: py_split_Nil)
next
  case (2 w)
  then show ?case using py_split_word [where w = w and r = "[]" and U = U] by (simp add: words_ok_def py_split_Nil)
next
  case (3 w v ws)
  have sp: "is_space U 32" by (simp add: is_space_def ascii_space_def)
  have "py_split U (w @ 32 # join_space (v # ws)) = w # py_split U (32 # join_space (v # ws))"
    using 3(2) sp by (intro py_split_word) (simp_all add: words_ok_def)
  also have "py_split U (32 # join_space (v # ws)) = v # ws"
    using 3 sp by (simp add: py_split_space_cons words_ok_def)
  finally show ?case by simp
qed

lemma py_split_empty: "dropWhile (is_space U) s = [] \<Longrightarrow> py_split U s = []"
  by (subst py_split.simps) (simp only: list.case)

lemma py_split_step:
  "dropWhile (is_space U) s = c # t \<Longrightarrow>
   py_split U s = takeWhile (\<lambda>x. \<not> is_space U x) (c # t)
                # py_split U (dropWhile (\<lambda>x. \<not> is_space U x) (c # t))"
  by (subst py_split.simps) (simp only: list.case)

lemma words_ok_py_split: "words_ok U (py_split U s)"
proof (induction U s rule: py_split.induct)
  case (1 U s)
  show ?case
  proof (cases "dropWhile (is_space U) s")
    case Nil
    then show ?thesis by (simp add: py_split_empty words_ok_Nil)
  next
    case (Cons c t)
    have c: "\<not> is_space U c" using Cons by (metis hd_dropWhile list.sel(1) list.distinct(1))
    have ih: "words_ok U (py_split U (dropWhile (\<lambda>x. \<not> is_space U x) (c # t)))"
      using 1 Cons by blast
    have tw: "takeWhile (\<lambda>x. \<not> is_space U x) (c # t) \<noteq> []" using c by simp
    have twc: "\<forall>x\<in>set (takeWhile (\<lambda>x. \<not> is_space U x) (c # t)). \<not> is_space U x"
      by (auto dest: set_takeWhileD)
    have "words_ok U (takeWhile (\<lambda>x. \<not> is_space U x) (c # t)
                    # py_split U (dropWhile (\<lambda>x. \<not> is_space U x) (c # t)))"
      using ih tw twc by (simp only: words_ok_Cons simp_thms)
    then show ?thesis by (simp only: py_split_step [OF Cons])
  qed
qed

lemma set_py_split: "w \<in> set (py_split U s) \<Longrightarrow> set w \<subseteq> set s"
proof (induction U s arbitrary: w rule: py_split.induct)
  case (1 U s)
  show ?case
  proof (cases "dropWhile (is_space U) s")
    case Nil
    then show ?thesis using 1(2) by (simp add: py_split_empty)
  next
    case (Cons c t)
    have "set (dropWhile (is_space U) s) \<subseteq> set s" by (rule subsetI) (erule set_dropWhileD)
    then have sub: "set (c # t) \<subseteq> set s" using Cons by simp
    from 1(2) have "w = takeWhile (\<lambda>x. \<not> is_space U x) (c # t)
        \<or> w \<in> set (py_split U (dropWhile (\<lambda>x. \<not> is_space U x) (c # t)))"
      unfolding py_split_step [OF Cons] by (simp only: set_simps insert_iff)
    then show ?thesis
    proof
      assume "w = takeWhile (\<lambda>x. \<not> is_space U x) (c # t)"
      then have "set w \<subseteq> set (c # t)" by (auto dest: set_takeWhileD)
      then show ?thesis using sub by blast
    next
      assume "w \<in> set (py_split U (dropWhile (\<lambda>x. \<not> is_space U x) (c # t)))"
      then have "set w \<subseteq> set (dropWhile (\<lambda>x. \<not> is_space U x) (c # t))"
        using 1(1) Cons by blast
      moreover have "set (dropWhile (\<lambda>x. \<not> is_space U x) (c # t)) \<subseteq> set (c # t)"
        by (rule subsetI) (erule set_dropWhileD)
      ultimately show ?thesis using sub by blast
    qed
  qed
qed

lemma set_join_space: "set (join_space ws) \<subseteq> \<Union>(set ` set ws) \<union> {32}"
  by (induction ws rule: join_space.induct) auto

lemma join_space_hd: "words_ok U ws \<Longrightarrow> join_space ws \<noteq> [] \<Longrightarrow> \<not> is_space U (hd (join_space ws))"
  by (induction ws rule: join_space.induct) (auto simp: words_ok_def)

lemma join_space_nonempty: "words_ok U (v # ws) \<Longrightarrow> join_space (v # ws) \<noteq> []"
  by (cases ws) (simp_all add: words_ok_def)

lemma join_space_last: "words_ok U ws \<Longrightarrow> join_space ws \<noteq> [] \<Longrightarrow> \<not> is_space U (last (join_space ws))"
proof (induction ws rule: join_space.induct)
  case 1
  then show ?case by simp
next
  case (2 w)
  then show ?case by (simp add: words_ok_def)
next
  case (3 w v ws)
  have ok: "words_ok U (v # ws)" using 3(2) by (simp add: words_ok_def)
  have ne: "join_space (v # ws) \<noteq> []" using ok by (rule join_space_nonempty)
  have "last (join_space (w # v # ws)) = last (join_space (v # ws))" using ne by simp
  then show ?case using 3(1) ok ne by simp
qed

lemma py_strip_id:
  assumes "s = [] \<or> (\<not> is_space U (hd s) \<and> \<not> is_space U (last s))"
  shows "py_strip U s = s"
proof (cases s)
  case Nil
  then show ?thesis by (simp add: py_strip_def lstrip_def rstrip_def)
next
  case (Cons c t)
  then have h: "\<not> is_space U (hd s)" "\<not> is_space U (last s)" using assms by auto
  have l: "lstrip U s = s" using h(1) Cons by (simp add: lstrip_def)
  have "rev s \<noteq> []" using Cons by simp
  then obtain d u where r: "rev s = d # u" by (cases "rev s") auto
  have "hd (rev s) = last s" using Cons by (simp add: hd_rev)
  then have "\<not> is_space U d" using h(2) r by simp
  then have "dropWhile (is_space U) (rev s) = rev s" using r by simp
  then have "rstrip U s = s" by (simp add: rstrip_def)
  then show ?thesis using l by (simp add: py_strip_def)
qed


lemma lower_char_idem: "lower_char (lower_char c) = lower_char c"
  by (simp add: lower_char_def is_upper_def)

lemma lower_char_ascii: "c < 128 \<Longrightarrow> lower_char c < 128"
  by (simp add: lower_char_def is_upper_def)

lemma space_facts: "is_space U 32" "kept_char U 32" "lower_char 32 = 32"
  by (simp_all add: is_space_def ascii_space_def kept_char_def lower_char_def is_upper_def)

lemma ascii_text_iff: "ascii_text s \<longleftrightarrow> (\<forall>c\<in>set s. c < 128)"
  by (simp add: ascii_text_def list_all_iff)

lemma set_py_strip: "set (py_strip U s) \<subseteq> set s"
proof -
  have a: "set (lstrip U s) \<subseteq> set s"
    unfolding lstrip_def by (rule subsetI) (erule set_dropWhileD)
  have "set (dropWhile (is_space U) (rev (lstrip U s))) \<subseteq> set (rev (lstrip U s))"
    by (rule subsetI) (erule set_dropWhileD)
  then have "set (rstrip U (lstrip U s)) \<subseteq> set (lstrip U s)" by (simp add: rstrip_def)
  then show ?thesis using a by (simp add: py_strip_def)
qed

lemma set_fold_sub:
  assumes "\<And>p c. set (f p c) \<subseteq> set c"
  shows "set (fold f ps c) \<subseteq> set (c :: ustring)"
proof (induction ps arbitrary: c)
  case Nil
  show ?case by simp
next
  case (Cons p ps)
  have "set (fold f ps (f p c)) \<subseteq> set (f p c)" by (rule Cons.IH)
  then show ?case using assms [of p c] by (simp; blast)
qed

lemma fold_fixed:
  assumes "\<forall>p\<in>set ps. f p c = c"
  shows "fold f ps c = c"
  using assms by (induction ps) simp_all

lemma set_remove_prefixes: "set (remove_prefixes U s) \<subseteq> set s"
  unfolding remove_prefixes_def
proof (rule set_fold_sub)
  fix p c :: ustring
  have "set (py_strip U (drop (length p) c)) \<subseteq> set (drop (length p) c)" by (rule set_py_strip)
  moreover have "set (drop (length p) c) \<subseteq> set c" by (rule set_drop_subset)
  ultimately show "set (if startswith c p then py_strip U (drop (length p) c) else c) \<subseteq> set c"
    by auto
qed

lemma set_remove_suffixes: "set (remove_suffixes U s) \<subseteq> set s"
  unfolding remove_suffixes_def
proof (rule set_fold_sub)
  fix p c :: ustring
  have "set (py_strip U (take (length c - length p) c)) \<subseteq> set (take (length c - length p) c)"
    by (rule set_py_strip)
  moreover have "set (take (length c - length p) c) \<subseteq> set c" by (rule set_take_subset)
  ultimately show "set (if endswith c p then py_strip U (take (length c - length p) c) else c) \<subseteq> set c"
    by auto
qed

lemma remove_prefixes_fixed:
  "\<forall>p\<in>set prefixes_to_remove. \<not> startswith y p \<Longrightarrow> remove_prefixes U y = y"
  unfolding remove_prefixes_def by (rule fold_fixed) simp

lemma remove_suffixes_fixed:
  "\<forall>p\<in>set suffixes_to_remove. \<not> endswith y p \<Longrightarrow> remove_suffixes U y = y"
  unfolding remove_suffixes_def by (rule fold_fixed) simp

text \<open>What \<open>' '.join(s.split())\<close> returns is left as it is by \<open>strip\<close> and by another
  \<open>' '.join(s.split())\<close>.\<close>

lemma joined_words_fixed:
  assumes "y = join_space (py_split U z)"
  shows "py_strip U y = y" and "join_space (py_split U y) = y"
proof -
  have ok: "words_ok U (py_split U z)" by (rule words_ok_py_split)
  show "py_strip U y = y"
  proof (rule py_strip_id)
    show "y = [] \<or> \<not> is_space U (hd y) \<and> \<not> is_space U (last y)"
      using join_space_hd [OF ok] join_space_last [OF ok] assms by blast
  qed
  show "join_space (py_split U y) = y"
    using py_split_join [OF ok] assms by simp
qed

lemma clean_name_shape: "\<exists>z. clean_name_for_matching U x = join_space (py_split U z)"
proof (cases "x = []")
  case True
  have "clean_name_for_matching U x = join_space (py_split U [])"
    using True by (simp add: clean_name_for_matching_def py_split_Nil)
  then show ?thesis by blast
next
  case False
  then show ?thesis by (simp add: clean_name_for_matching_def Let_def) blast
qed

lemma stable_fixed:
  assumes st: "unicode_stable U y"
    and np: "\<forall>p\<in>set prefixes_to_remove. \<not> startswith y p"
    and ns: "\<forall>p\<in>set suffixes_to_remove. \<not> endswith y p"
    and sh: "y = join_space (py_split U z)"
  shows "clean_name_for_matching U y = y"
proof (cases "y = []")
  case True
  then show ?thesis by (simp add: clean_name_for_matching_def)
next
  case False
  have l: "py_lower U y = y" and r: "re_sub_special U y = y" and n: "normalize_NFKC U y = y"
    using st by (simp_all add: unicode_stable_def)
  have s: "py_strip U y = y" and j: "join_space (py_split U y) = y"
    using joined_words_fixed [OF sh] by simp_all
  show ?thesis
    using False
    by (simp add: clean_name_for_matching_def l s remove_prefixes_fixed [OF np]
        remove_suffixes_fixed [OF ns] r n j)
qed

text \<open>On ASCII input the result is ASCII, lower-case and made of kept characters.\<close>

lemma ascii_clean_chars:
  assumes "ascii_text x"
  shows "\<forall>c\<in>set (clean_name_for_matching U x). c < 128 \<and> lower_char c = c \<and> kept_char U c"
proof (cases "x = []")
  case True
  then show ?thesis by (simp add: clean_name_for_matching_def)
next
  case False
  define l where "l = py_lower U x"
  define u where "u = remove_suffixes U (remove_prefixes U (py_strip U l))"
  define z0 where "z0 = re_sub_special U u"
  define z where "z = normalize_NFKC U z0"
  have y: "clean_name_for_matching U x = join_space (py_split U z)"
    using False by (simp add: clean_name_for_matching_def l_def u_def z0_def z_def)
  have lx: "l = map lower_char x" using assms by (simp add: l_def py_lower_def)
  have lc: "\<forall>c\<in>set l. c < 128 \<and> lower_char c = c"
    unfolding lx using assms by (auto simp: ascii_text_iff lower_char_idem lower_char_ascii)
  have "set u \<subseteq> set l"
    unfolding u_def using set_remove_suffixes set_remove_prefixes set_py_strip by blast
  then have uc: "\<forall>c\<in>set u. c < 128 \<and> lower_char c = c" using lc by blast
  have z0c: "\<forall>c\<in>set z0. c < 128 \<and> lower_char c = c \<and> kept_char U c"
    unfolding z0_def re_sub_special_def using uc space_facts(1,2) [of U] space_facts(3) by auto
  then have "ascii_text z0" by (simp add: ascii_text_iff)
  then have "z = z0" by (simp add: z_def normalize_NFKC_def)
  then have zc: "\<forall>c\<in>set z. c < 128 \<and> lower_char c = c \<and> kept_char U c" using z0c by simp
  have "\<forall>c\<in>set (join_space (py_split U z)). c < 128 \<and> lower_char c = c \<and> kept_char U c"
  proof
    fix c assume "c \<in> set (join_space (py_split U z))"
    then have "c \<in> \<Union>(set ` set (py_split U z)) \<union> {32}"
      using set_join_space by blast
    then consider "c = 32" | w where "w \<in> set (py_split U z)" "c \<in> set w" by auto
    then show "c < 128 \<and> lower_char c = c \<and> kept_char U c"
    proof cases
      case 1
      then show ?thesis using space_facts(1,2) [of U] space_facts(3) by simp
    next
      case 2
      then have "c \<in> set z" using set_py_split by blast
      then show ?thesis using zc by blast
    qed
  qed
  then show ?thesis unfolding y .
qed

lemma ascii_clean_stable:
  assumes "ascii_text x"
  shows "unicode_stable U (clean_name_for_matching U x)"
proof -
  let ?y = "clean_name_for_matching U x"
  have ch: "\<forall>c\<in>set ?y. c < 128 \<and> lower_char c = c \<and> kept_char U c"
    using assms by (rule ascii_clean_chars)
  then have a: "ascii_text ?y" by (simp add: ascii_text_iff)
  have l: "py_lower U ?y = ?y" using a ch by (simp add: py_lower_def map_idI)
  have r: "re_sub_special U ?y = ?y" using ch by (simp add: re_sub_special_def map_idI)
  have n: "normalize_NFKC U ?y = ?y" using a by (simp add: normalize_NFKC_def)
  show ?thesis using l r n by (simp add: unicode_stable_def)
qed

section \<open>Properties of the fuzzy search\<close>

lemma find_corresponding_first:
  "find_corresponding items mn = Some c \<Longrightarrow>
   \<exists>i<length items. cleaned_name (items ! i) = mn \<and> cd_customer (items ! i) = c
       \<and> (\<forall>j<i. cleaned_name (items ! j) \<noteq> mn)"
proof (induction items)
  case Nil
  then show ?case by simp
next
  case (Cons item items)
  show ?case
  proof (cases "cleaned_name item = mn")
    case True
    then have "cd_customer item = c" using Cons.prems by simp
    then have "0 < length (item # items) \<and> cleaned_name ((item # items) ! 0) = mn
        \<and> cd_customer ((item # items) ! 0) = c
        \<and> (\<forall>j<0. cleaned_name ((item # items) ! j) \<noteq> mn)"
      using True by simp
    then show ?thesis by blast
  next
    case False
    then have "find_corresponding items mn = Some c" using Cons.prems by simp
    then obtain i where i: "i < length items" "cleaned_name (items ! i) = mn"
        "cd_customer (items ! i) = c" "\<forall>j<i. cleaned_name (items ! j) \<noteq> mn"
      using Cons.IH by blast
    have "\<forall>j<Suc i. cleaned_name ((item # items) ! j) \<noteq> mn"
    proof (intro allI impI)
      fix j assume "j < Suc i"
      then show "cleaned_name ((item # items) ! j) \<noteq> mn"
        using False i(4) by (cases j) simp_all
    qed
    then have "Suc i < length (item # items) \<and> cleaned_name ((item # items) ! Suc i) = mn
        \<and> cd_customer ((item # items) ! Suc i) = c
        \<and> (\<forall>j<Suc i. cleaned_name ((item # items) ! j) \<noteq> mn)"
      using i by simp
    then show ?thesis by blast
  qed
qed

lemma build_results_mem:
  "r \<in> set (build_results cd matches) \<Longrightarrow>
   \<exists>mn sc c. (mn, sc) \<in> set matches \<and> find_corresponding cd mn = Some c \<and> r = result_of c sc"
proof (induction matches)
  case Nil
  then show ?case by simp
next
  case (Cons p matches)
  obtain mn sc where p: "p = (mn, sc)" by (cases p)
  show ?case
  proof (cases "find_corresponding cd mn")
    case None
    then have "r \<in> set (build_results cd matches)" using Cons.prems p by simp
    then show ?thesis using Cons.IH by (simp; blast)
  next
    case (Some c)
    then have "r = result_of c sc \<or> r \<in> set (build_results cd matches)"
      using Cons.prems p by simp
    then show ?thesis
    proof
      assume "r = result_of c sc"
      then show ?thesis using Some p by (simp; blast)
    next
      assume "r \<in> set (build_results cd matches)"
      then show ?thesis using Cons.IH by (simp; blast)
    qed
  qed
qed

lemma find_customer_matches_origin:
  assumes "r \<in> set (find_customer_matches U extract customers q k)"
  shows "\<exists>matches mn sc i.
           extract (clean_name_for_matching U q)
                   (map (\<lambda>c. clean_name_for_matching U (name c)) customers) k = Some matches
           \<and> (mn, sc) \<in> set matches
           \<and> i < length customers
           \<and> clean_name_for_matching U (name (customers ! i)) = mn
           \<and> (\<forall>j<i. clean_name_for_matching U (name (customers ! j)) \<noteq> mn)
           \<and> r = result_of (customers ! i) sc"
proof -
  let ?cd = "make_customer_data U customers"
  have names: "map cleaned_name ?cd = map (\<lambda>c. clean_name_for_matching U (name c)) customers"
    by (simp add: make_customer_data_def comp_def)
  from assms have ne: "customers \<noteq> []"
    by (auto simp: find_customer_matches_def)
  have "\<exists>matches. extract (clean_name_for_matching U q) (map cleaned_name ?cd) k = Some matches
      \<and> r \<in> set (build_results ?cd matches)"
  proof (cases "extract (clean_name_for_matching U q) (map cleaned_name ?cd) k")
    case None
    then show ?thesis using assms ne by (simp add: find_customer_matches_def Let_def)
  next
    case (Some ms)
    then show ?thesis using assms ne by (simp add: find_customer_matches_def Let_def)
  qed
  then obtain matches where
    m: "extract (clean_name_for_matching U q) (map cleaned_name ?cd) k = Some matches"
    and r: "r \<in> set (build_results ?cd matches)"
    by blast
  from build_results_mem [OF r] obtain mn sc c where
    b: "(mn, sc) \<in> set matches" "find_corresponding ?cd mn = Some c" "r = result_of c sc"
    by blast
  from find_corresponding_first [OF b(2)] obtain i where
    i: "i < length ?cd" "cleaned_name (?cd ! i) = mn" "cd_customer (?cd ! i) = c"
       "\<forall>j<i. cleaned_name (?cd ! j) \<noteq> mn"
    by blast
  have len: "length ?cd = length customers" by (simp add: make_customer_data_def)
  have nth: "\<And>j. j < length customers \<Longrightarrow>
      cleaned_name (?cd ! j) = clean_name_for_matching U (name (customers ! j))
      \<and> cd_customer (?cd ! j) = customers ! j"
    by (simp add: make_customer_data_def)
  have 1: "i < length customers" using i(1) len by simp
  have 2: "clean_name_for_matching U (name (customers ! i)) = mn" using nth [OF 1] i(2) by simp
  have 3: "customers ! i = c" using nth [OF 1] i(3) by simp
  have 4: "\<forall>j<i. clean_name_for_matching U (name (customers ! j)) \<noteq> mn"
  proof (intro allI impI)
    fix j assume ji: "j < i"
    then have jl: "j < length customers" using 1 by simp
    have "cleaned_name (?cd ! j) = clean_name_for_matching U (name (customers ! j))"
      using nth [OF jl] by blast
    moreover have "cleaned_name (?cd ! j) \<noteq> mn" using i(4) ji by blast
    ultimately show "clean_name_for_matching U (name (customers ! j)) \<noteq> mn" by simp
  qed
  show ?thesis
    using m b(1) 1 2 3 4 b(3) unfolding names by blast
qed

lemma search_names:
  assumes "r \<in> set (search_similar_customers U extract customers q k)"
  shows "m_customer_name r \<in> name ` set customers"
proof -
  from assms have "r \<in> set (find_customer_matches U extract customers q k)"
    by (auto simp: search_similar_customers_def split: if_splits)
  from find_customer_matches_origin [OF this] obtain sc i where
    "i < length customers" "r = result_of (customers ! i) sc" by blast
  then show ?thesis by (simp add: result_of_def)
qed


section \<open>Properties of the arbitration\<close>

lemma separate_eq:
  "separate price ms (ex, no) =
     (ex @ filter exact_price_match (map (make_candidate price) ms),
      no @ filter (\<lambda>c. \<not> exact_price_match c) (map (make_candidate price) ms))"
  by (induction ms arbitrary: ex no) (simp_all add: Let_def)

lemma sort_desc_Nil: "sort_desc [] = []"
  by (simp add: sort_desc_def)

lemma set_sort_desc: "set (sort_desc xs) = set xs"
  by (simp add: sort_desc_def)

lemma all_candidates_of_eq:
  "all_candidates_of price vr =
     sort_desc (filter exact_price_match (map (make_candidate price) vr))
     @ filter (\<lambda>c. 0.6 < combined_confidence c)
         (sort_desc (filter (\<lambda>c. \<not> exact_price_match c) (map (make_candidate price) vr)))"
  by (simp add: all_candidates_of_def separate_eq sort_desc_Nil)

lemma append_order:
  assumes "\<forall>a\<in>set A. P a" "\<forall>b\<in>set B. \<not> P b"
    and "i < length (A @ B)" "j < length (A @ B)" "P ((A @ B) ! i)" "\<not> P ((A @ B) ! j)"
  shows "i < j"
proof -
  have i: "i < length A"
  proof (rule ccontr)
    assume "\<not> i < length A"
    then have "(A @ B) ! i = B ! (i - length A)" "i - length A < length B"
      using assms(3) by (simp_all add: nth_append)
    then show False using assms(2,5) by (metis nth_mem)
  qed
  have "\<not> j < length A"
  proof
    assume "j < length A"
    then have "(A @ B) ! j = A ! j" by (simp add: nth_append)
    then show False using assms(1,6) \<open>j < length A\<close> by (metis nth_mem)
  qed
  then show ?thesis using i by simp
qed

lemma candidate_names:
  assumes "c \<in> set (all_candidates_of price vr)"
  shows "customer_name c \<in> m_customer_name ` set vr"
proof -
  from assms have "c \<in> make_candidate price ` set vr"
    unfolding all_candidates_of_eq by (auto simp: set_sort_desc)
  then show ?thesis by (auto simp: make_candidate_def Let_def)
qed

lemma first_exact_mem: "first_exact cs = Some e \<Longrightarrow> e \<in> set cs \<and> exact_price_match e"
  unfolding first_exact_def by (auto simp: find_Some_iff)

lemma fallback_choice_mem:
  "fallback_choice cs = Some nm \<Longrightarrow> \<exists>c\<in>set cs. customer_name c = nm"
  unfolding fallback_choice_def
  by (auto split: option.splits list.splits dest: first_exact_mem)

lemma ai_choice_mem:
  assumes "ai_choose_best_match_with_price U model orig cs price = Some nm"
  shows "\<exists>c\<in>set cs. customer_name c = nm"
proof (cases model)
  case None
  then have "fallback_choice cs = Some nm" using assms
    by (simp add: ai_choose_best_match_with_price_def)
  then show ?thesis by (rule fallback_choice_mem)
next
  case (Some g)
  show ?thesis
  proof (cases "cs = []")
    case True
    then have "fallback_choice cs = Some nm" using assms Some
      by (simp add: ai_choose_best_match_with_price_def)
    then show ?thesis by (rule fallback_choice_mem)
  next
    case False
    show ?thesis
    proof (cases "g orig cs price")
      case Raises
      then have "fallback_choice cs = Some nm" using assms Some False
        by (simp add: ai_choose_best_match_with_price_def)
      then show ?thesis by (rule fallback_choice_mem)
    next
      case (Text t)
      show ?thesis
      proof (cases "find (names_candidate U (py_strip U t)) cs")
        case (Some c)
        then have "c \<in> set cs" by (auto simp: find_Some_iff)
        moreover have "nm = customer_name c"
          using assms \<open>model = Some g\<close> False Text Some
          by (simp add: ai_choose_best_match_with_price_def Let_def split: if_splits)
        ultimately show ?thesis by blast
      next
        case None
        then have "\<exists>e. first_exact cs = Some e \<and> nm = customer_name e"
          using assms \<open>model = Some g\<close> False Text
          by (simp add: ai_choose_best_match_with_price_def Let_def
              split: if_splits option.splits)
        then show ?thesis using first_exact_mem by blast
      qed
    qed
  qed
qed

lemma find_name_Some:
  "\<exists>c\<in>set cs. customer_name c = nm \<Longrightarrow> \<exists>ch. find (\<lambda>c. customer_name c = nm) cs = Some ch"
  by (cases "find (\<lambda>c. customer_name c = nm) cs") (auto simp: find_None_iff)

lemma decide_total:
  assumes "ai_choose_best_match_with_price U model orig cs price = ch"
  shows "\<exists>d. decide n price cs ch = Inr d"
proof (cases ch)
  case None
  then show ?thesis by (simp add: decide_def)
next
  case (Some nm)
  then obtain chosen where "find (\<lambda>c. customer_name c = nm) cs = Some chosen"
    using ai_choice_mem assms find_name_Some by blast
  then show ?thesis using Some by (simp add: decide_def)
qed

lemma all_candidates_of_Nil: "all_candidates_of price [] = []"
  by (simp add: all_candidates_of_def)


section \<open>Properties of the loader, the reconciliation and the sheet\<close>

lemma round_half_even_close: "\<bar>of_int (round_half_even y) - y\<bar> \<le> 1/2"
  unfolding round_half_even_def Let_def by (auto simp: abs_if) linarith+

lemma py_round2_close: "\<bar>py_round2 x - x\<bar> \<le> 1/200"
proof -
  have "\<bar>of_int (round_half_even (x * 100)) - x * 100\<bar> \<le> 1/2" by (rule round_half_even_close)
  then show ?thesis unfolding py_round2_def by (simp add: abs_if field_simps split: if_splits)
qed

lemma read_worker_cases:
  assumes "read_worker py m row p co = Inr w0"
  shows "case worker_cell py m row of
           Some w \<Rightarrow> w0 = Some (py_round2 w)
         | None \<Rightarrow> w0 = None \<or> (\<exists>ca. co = Some ca \<and> 0 < p \<and> w0 = Some (py_round2 (p - ca)))"
  using assms
  by (auto simp: read_worker_def worker_cell_def cell_at_def
      split: option.splits sum.splits if_splits)

lemma read_row_fields:
  assumes "read_row U py m row = Some c"
  shows "\<exists>w0. read_worker py m row (price_per_ton c) (company_amount c) = Inr w0
          \<and> worker_amount c =
              (case (w0, company_amount c) of
                 (None, Some ca) \<Rightarrow>
                    if 0 < price_per_ton c then Some (py_round2 (price_per_ton c - ca)) else None
               | _ \<Rightarrow> w0)
          \<and> name c \<noteq> []"
proof (cases "col_name m")
  case None
  then show ?thesis using assms by (simp add: read_row_def)
next
  case (Some ni)
  note ni = this
  show ?thesis
  proof (cases "cell_at row ni")
    case (Inl e)
    then show ?thesis using assms ni by (simp add: read_row_def)
  next
    case (Inr name_cell)
    note nc = this
    show ?thesis
    proof (cases "\<not> truthy name_cell \<or> py_strip U (py_str py name_cell) = []")
      case True
      then show ?thesis using assms ni nc by (simp add: read_row_def)
    next
      case False
      note nm = this
      show ?thesis
      proof (cases "read_price py m row")
        case (Inl e)
        then show ?thesis using assms ni nc nm by (simp add: read_row_def)
      next
        case (Inr price)
        note pr = this
        show ?thesis
        proof (cases "read_formula U py m row")
          case (Inl e)
          then show ?thesis using assms ni nc nm pr by (simp add: read_row_def)
        next
          case (Inr fml)
          note fm = this
          show ?thesis
          proof (cases "read_company py m row")
            case (Inl e)
            then show ?thesis using assms ni nc nm pr fm by (simp add: read_row_def)
          next
            case (Inr company)
            note co = this
            show ?thesis
            proof (cases "read_worker py m row price company")
              case (Inl e)
              then show ?thesis using assms ni nc nm pr fm co by (simp add: read_row_def)
            next
              case (Inr worker)
              have c: "c = \<lparr>name = py_strip U (py_str py name_cell),
                            price_per_ton = price,
                            formula = fml,
                            company_amount = company,
                            worker_amount =
                              (case (worker, company) of
                                 (None, Some ca) \<Rightarrow>
                                    if 0 < price then Some (py_round2 (price - ca)) else None
                               | _ \<Rightarrow> worker)\<rparr>"
                using assms ni nc nm pr fm co Inr by (simp add: read_row_def)
              have f: "price_per_ton c = price" "company_amount c = company"
                "name c = py_strip U (py_str py name_cell)"
                "worker_amount c =
                   (case (worker, company) of
                      (None, Some ca) \<Rightarrow>
                         if 0 < price then Some (py_round2 (price - ca)) else None
                    | _ \<Rightarrow> worker)"
                by (simp_all add: c)
              show ?thesis unfolding f using nm Inr by simp
            qed
          qed
        qed
      qed
    qed
  qed
qed

lemma read_row_worker:
  assumes "read_row U py m row = Some c"
  shows "case worker_cell py m row of
           Some w \<Rightarrow> worker_amount c = Some (py_round2 w)
         | None \<Rightarrow>
             (case company_amount c of
                Some ca \<Rightarrow>
                  if 0 < price_per_ton c
                  then worker_amount c = Some (py_round2 (price_per_ton c - ca))
                       \<and> \<bar>ca + py_round2 (price_per_ton c - ca) - price_per_ton c\<bar> \<le> 1/200
                  else worker_amount c = None
              | None \<Rightarrow> worker_amount c = None)"
proof -
  obtain w0 where w0: "read_worker py m row (price_per_ton c) (company_amount c) = Inr w0"
    and wa: "worker_amount c =
              (case (w0, company_amount c) of
                 (None, Some ca) \<Rightarrow>
                    if 0 < price_per_ton c then Some (py_round2 (price_per_ton c - ca)) else None
               | _ \<Rightarrow> w0)"
    using read_row_fields [OF assms] by blast
  have close: "\<And>ca. \<bar>ca + py_round2 (price_per_ton c - ca) - price_per_ton c\<bar> \<le> 1/200"
  proof -
    fix ca
    have "ca + py_round2 (price_per_ton c - ca) - price_per_ton c
            = py_round2 (price_per_ton c - ca) - (price_per_ton c - ca)" by simp
    then show "\<bar>ca + py_round2 (price_per_ton c - ca) - price_per_ton c\<bar> \<le> 1/200"
      using py_round2_close [of "price_per_ton c - ca"] by (simp only:)
  qed
  show ?thesis
    using read_worker_cases [OF w0] wa close
    by (auto split: option.splits)
qed

lemma load_rows:
  assumes "load_from_excel U py sheet = Inr customers" "c \<in> set customers"
  shows "\<exists>row\<in>set (tl sheet). read_row U py (scan_header U (hd sheet)) row = Some c"
proof -
  have ne: "sheet \<noteq> []"
    using assms(1) by (auto simp: load_from_excel_def header_found_def Let_def)
  then obtain first_row rest where s: "sheet = first_row # rest" by (cases sheet) auto
  have "customers = List.map_filter (read_row U py (scan_header U first_row)) rest"
    using assms(1) s by (auto simp: load_from_excel_def Let_def split: if_splits)
  then have "c \<in> set (List.map_filter (read_row U py (scan_header U first_row)) rest)"
    using assms(2) by simp
  then show ?thesis using s by (auto simp: List.map_filter_def)
qed






text \<open>Every customer the loader returns has a non-empty name.\<close>

lemma loaded_names_nonempty:
  assumes "load_from_excel U py sheet = Inr customers" "c \<in> set customers"
  shows "name c \<noteq> []"
proof -
  obtain row where "read_row U py (scan_header U (hd sheet)) row = Some c"
    using load_rows [OF assms] by blast
  then show ?thesis using read_row_fields by blast
qed


section \<open>The sample data, evaluated\<close>

lemma sample_catalogue:
  "load_from_excel sample_unicode sample_py catalogue_sheet = Inr sample_customers"
  by code_simp

lemma sample_matches:
  "find_customer_matches sample_unicode sample_extract sample_customers (asc ''ali trading'') 10
     = sample_results"
  by code_simp

lemma sample_search:
  "search_similar_customers sample_unicode sample_extract sample_customers (asc ''ali trading'') 10
     = sample_results"
  by code_simp

lemma sample_all80: "all_candidates_of (Some 80) sample_results = [abu80, ali80, ali80]"
  by code_simp

lemma sample_all70: "all_candidates_of (Some 70) sample_results = [ali70, ali70]"
  by code_simp

lemma sample_load: "load_from_excel sample_unicode sample_py sample_sheet = Inr sample_loaded"
  by code_simp



section \<open>The ranked candidate list\<close>

text \<open>
  Claim C1: in the candidate list that \<open>find_best_customer_match\<close> builds from the search
  results, whatever these are, every candidate with an exact price match stands before
  every candidate without one, whatever their similarity scores.
\<close>

theorem exact_price_first:
  assumes "i < length (all_candidates_of price vr)"
    and "j < length (all_candidates_of price vr)"
    and "exact_price_match (all_candidates_of price vr ! i)"
    and "\<not> exact_price_match (all_candidates_of price vr ! j)"
  shows "i < j"
proof -
  let ?A = "sort_desc (filter exact_price_match (map (make_candidate price) vr))"
  let ?B = "filter (\<lambda>c. 0.6 < combined_confidence c)
         (sort_desc (filter (\<lambda>c. \<not> exact_price_match c) (map (make_candidate price) vr)))"
  have a: "\<forall>a\<in>set ?A. exact_price_match a" by (simp add: set_sort_desc)
  have b: "\<forall>b\<in>set ?B. \<not> exact_price_match b" by (simp add: set_sort_desc)
  show ?thesis
    using append_order [OF a b] assms unfolding all_candidates_of_eq by blast
qed

text \<open>On the sample catalogue, the query \<open>ali trading\<close> and the price 80: the candidate
  of similarity 0.6 whose price matches stands at position 0, a candidate of similarity 1
  whose price does not match at position 1.\<close>

theorem exact_price_first_witness:
  "all_candidates_of (Some 80)
     (search_similar_customers sample_unicode sample_extract sample_customers
        (asc ''ali trading'') 10) = [abu80, ali80, ali80]
   \<and> exact_price_match abu80 \<and> similarity_score abu80 = 0.6
   \<and> \<not> exact_price_match ali80 \<and> similarity_score ali80 = 1
   \<and> (0::nat) < 1"
proof -
  let ?all = "all_candidates_of (Some 80)
     (search_similar_customers sample_unicode sample_extract sample_customers
        (asc ''ali trading'') 10)"
  have a: "?all = [abu80, ali80, ali80]" by (simp only: sample_search sample_all80)
  have e0: "exact_price_match abu80" and s0: "similarity_score abu80 = 0.6"
    by (simp_all add: abu80_def)
  have e1: "\<not> exact_price_match ali80" and s1: "similarity_score ali80 = 1"
    by (simp_all add: ali80_def)
  have l0: "0 < length ?all" and l1: "1 < length ?all" by (simp_all add: a)
  have x0: "exact_price_match (?all ! 0)" using e0 by (simp add: a)
  have x1: "\<not> exact_price_match (?all ! 1)" using e1 by (simp add: a)
  have "(0::nat) < 1" by (rule exact_price_first [OF l0 l1 x0 x1])
  then show ?thesis using a e0 s0 e1 s1 by blast
qed

text \<open>
  Claim C2: a candidate of similarity \<open>s\<close> is an exact price match exactly when the
  extracted price is present and positive, the customer's price is positive and the two
  differ by less than 0.01; its combined confidence is \<open>0.95 * s\<close> then and \<open>0.7 * s\<close>
  otherwise. The final candidate list holds exactly the candidates that are exact price
  matches or have a combined confidence above 0.6: a name-only candidate at or below 0.6 is
  left out, an exact price match never is.
\<close>

theorem candidate_confidence_and_filter:
  "(let c = make_candidate price m in
      similarity_score c = m_confidence_score m
      \<and> (exact_price_match c \<longleftrightarrow>
           (\<exists>p. price = Some p \<and> 0 < p \<and> 0 < m_price_per_ton m \<and> \<bar>p - m_price_per_ton m\<bar> < 0.01))
      \<and> combined_confidence c =
           (if exact_price_match c then 0.95 * similarity_score c else 0.7 * similarity_score c))
   \<and> set (all_candidates_of price vr) =
       {c \<in> make_candidate price ` set vr. exact_price_match c \<or> 0.6 < combined_confidence c}"
proof -
  have 1: "let c = make_candidate price m in
      similarity_score c = m_confidence_score m
      \<and> (exact_price_match c \<longleftrightarrow>
           (\<exists>p. price = Some p \<and> 0 < p \<and> 0 < m_price_per_ton m \<and> \<bar>p - m_price_per_ton m\<bar> < 0.01))
      \<and> combined_confidence c =
           (if exact_price_match c then 0.95 * similarity_score c else 0.7 * similarity_score c)"
    by (cases price) (auto simp: make_candidate_def is_exact_price_match_def Let_def)
  have 2: "set (all_candidates_of price vr) =
       {c \<in> make_candidate price ` set vr. exact_price_match c \<or> 0.6 < combined_confidence c}"
    unfolding all_candidates_of_eq by (auto simp: set_sort_desc)
  show ?thesis using 1 2 by blast
qed

text \<open>On the sample catalogue \<open>Abu Transport\<close>, of similarity 0.6, is kept at the price 80,
  where it is an exact price match of confidence 0.57, and left out at the price 70, where
  it is a name-only candidate of confidence 0.42.\<close>

theorem candidate_confidence_and_filter_witness:
  "make_candidate (Some 80) (result_of (sample_customers ! 2) 60) = abu80
   \<and> combined_confidence abu80 = 0.95 * 0.6
   \<and> \<not> exact_price_match (make_candidate (Some 70) (result_of (sample_customers ! 2) 60))
   \<and> combined_confidence (make_candidate (Some 70) (result_of (sample_customers ! 2) 60))
       = 0.7 * 0.6
   \<and> all_candidates_of (Some 80) sample_results = [abu80, ali80, ali80]
   \<and> all_candidates_of (Some 70) sample_results = [ali70, ali70]
   \<and> set (all_candidates_of (Some 70) sample_results) =
       {c \<in> make_candidate (Some 70) ` set sample_results.
          exact_price_match c \<or> 0.6 < combined_confidence c}"
proof -
  have 1: "make_candidate (Some 80) (result_of (sample_customers ! 2) 60) = abu80" by code_simp
  have 2: "combined_confidence abu80 = 0.95 * 0.6" by (simp add: abu80_def)
  have 3: "\<not> exact_price_match (make_candidate (Some 70) (result_of (sample_customers ! 2) 60))"
    by code_simp
  have 4: "combined_confidence (make_candidate (Some 70) (result_of (sample_customers ! 2) 60))
       = 0.7 * 0.6" by code_simp
  have 5: "set (all_candidates_of (Some 70) sample_results) =
       {c \<in> make_candidate (Some 70) ` set sample_results.
          exact_price_match c \<or> 0.6 < combined_confidence c}"
    using candidate_confidence_and_filter
      [where price = "Some 70" and vr = sample_results and m = "result_of (sample_customers ! 2) 60"]
    by (rule conjunct2)
  show ?thesis using 1 2 3 4 5 sample_all80 sample_all70 by blast
qed

section \<open>The arbiter and the decision\<close>

text \<open>
  Claim C3: for a catalogue that the loader has produced, a non-empty extracted name and a
  non-empty candidate list, \<open>find_best_customer_match\<close> returns \<open>match_found\<close>, with the
  chosen candidate's name, combined confidence and price-match flag, exactly when the
  arbiter or its fallback selects a candidate whose combined confidence is at least 0.5;
  when nothing is selected, or the selected candidate is below 0.5, it returns
  \<open>new_customer_detected\<close> with confidence 0. (The catalogue is the loader's since a
  selected name that is empty counts as no selection, and the loader keeps no customer
  with an empty name.)
\<close>

theorem decision_threshold:
  assumes "load_from_excel U py sheet = Inr customers"
    and "n \<noteq> []"
    and "all_candidates_of price (search_similar_customers U extract customers n 10) \<noteq> []"
    and "top3 = take 3 (all_candidates_of price (search_similar_customers U extract customers n 10))"
  shows "\<exists>d. find_best_customer_match U extract customers model n price = Inr d \<and>
     (case ai_choose_best_match_with_price U model n top3 price of
        None \<Rightarrow> d = new_customer_detected 0
      | Some nm \<Rightarrow>
          (\<exists>chosen. find (\<lambda>c. customer_name c = nm) top3 = Some chosen \<and>
             d = (if 0.5 \<le> combined_confidence chosen
                  then match_found nm (combined_confidence chosen) n
                         (exact_price_match chosen) price (customer_price chosen)
                  else new_customer_detected 0)))"
proof -
  let ?vr = "search_similar_customers U extract customers n 10"
  let ?ch = "ai_choose_best_match_with_price U model n top3 price"
  have vr: "?vr \<noteq> []" using assms(3) all_candidates_of_Nil by metis
  have f: "find_best_customer_match U extract customers model n price = decide n price top3 ?ch"
    using assms(2,3,4) vr by (simp add: find_best_customer_match_def Let_def)
  show ?thesis
  proof (cases ?ch)
    case None
    then show ?thesis using f by (simp add: decide_def)
  next
    case (Some nm)
    then obtain c where c: "c \<in> set top3" "customer_name c = nm"
      using ai_choice_mem by blast
    then have "c \<in> set (all_candidates_of price ?vr)"
      using assms(4) by (auto dest: in_set_takeD)
    then have "customer_name c \<in> m_customer_name ` set ?vr" by (rule candidate_names)
    then obtain r where r: "r \<in> set ?vr" "customer_name c = m_customer_name r" by auto
    have "customer_name c \<in> name ` set customers"
      using search_names [OF r(1)] r(2) by simp
    then obtain k where k: "k \<in> set customers" "customer_name c = name k" by blast
    have "name k \<noteq> []" using assms(1) k(1) by (rule loaded_names_nonempty)
    then have nm: "nm \<noteq> []" using k(2) c(2) by simp
    obtain chosen where ch: "find (\<lambda>c. customer_name c = nm) top3 = Some chosen"
      using c find_name_Some by blast
    show ?thesis using f Some nm ch by (simp add: decide_def)
  qed
qed

text \<open>On the sample catalogue, loaded from its sheet: at the price 80 the fallback of the
  absent arbiter selects \<open>Abu Transport\<close>, of combined confidence 0.57, and the match is
  accepted.\<close>

theorem decision_threshold_witness:
  "load_from_excel sample_unicode sample_py catalogue_sheet = Inr sample_customers
   \<and> take 3 (all_candidates_of (Some 80)
        (search_similar_customers sample_unicode sample_extract sample_customers
           (asc ''ali trading'') 10)) = [abu80, ali80, ali80]
   \<and> ai_choose_best_match_with_price sample_unicode None (asc ''ali trading'')
        [abu80, ali80, ali80] (Some 80) = Some (asc ''Abu Transport'')
   \<and> find_best_customer_match sample_unicode sample_extract sample_customers None
        (asc ''ali trading'') (Some 80)
       = Inr (match_found (asc ''Abu Transport'') 0.57 (asc ''ali trading'') True (Some 80) 80)"
proof -
  let ?all = "all_candidates_of (Some 80)
        (search_similar_customers sample_unicode sample_extract sample_customers
           (asc ''ali trading'') 10)"
  have a: "?all = [abu80, ali80, ali80]" by (simp only: sample_search sample_all80)
  have n: "asc ''ali trading'' \<noteq> []" by (simp add: asc_def)
  have ne: "?all \<noteq> []" by (simp add: a)
  have t: "[abu80, ali80, ali80] = take 3 ?all" by (simp add: a)
  have ch: "ai_choose_best_match_with_price sample_unicode None (asc ''ali trading'')
              [abu80, ali80, ali80] (Some 80) = Some (asc ''Abu Transport'')" by code_simp
  have fd: "find (\<lambda>c. customer_name c = asc ''Abu Transport'') [abu80, ali80, ali80] = Some abu80"
    by code_simp
  have v: "combined_confidence abu80 = 0.57" "exact_price_match abu80" "customer_price abu80 = 80"
    by (simp_all add: abu80_def)
  from decision_threshold [OF sample_catalogue n ne t, where model = None]
  have "\<exists>d. find_best_customer_match sample_unicode sample_extract sample_customers None
               (asc ''ali trading'') (Some 80) = Inr d \<and>
          (\<exists>chosen. Some abu80 = Some chosen \<and>
             d = (if 0.5 \<le> combined_confidence chosen
                  then match_found (asc ''Abu Transport'') (combined_confidence chosen)
                         (asc ''ali trading'') (exact_price_match chosen) (Some 80)
                         (customer_price chosen)
                  else new_customer_detected 0))"
    by (simp only: ch fd option.case)
  then have "find_best_customer_match sample_unicode sample_extract sample_customers None
        (asc ''ali trading'') (Some 80)
       = Inr (match_found (asc ''Abu Transport'') 0.57 (asc ''ali trading'') True (Some 80) 80)"
    using v by auto
  then show ?thesis using sample_catalogue a ch by simp
qed

text \<open>
  Claim C4 (as stated): whenever the arbiter errs, is unavailable or gives an answer that
  names no candidate and is not \<open>NONE\<close>, the step selects the first exact price match
  among the top three, and otherwise the top candidate. For the answer that names no
  candidate the code returns no choice when there is no exact price match: on the sample
  catalogue and the price 70 the top candidate is \<open>Ali Trading Sdn Bhd\<close>, no candidate is
  an exact price match, and the answer \<open>no idea\<close> selects nothing, so the record becomes
  a new customer; the absent arbiter selects the top candidate there.
\<close>

theorem unparseable_answer_selects_nothing:
  "take 3 (all_candidates_of (Some 70)
       (search_similar_customers sample_unicode sample_extract sample_customers
          (asc ''ali trading'') 10)) = [ali70, ali70]
   \<and> customer_name ali70 = asc ''Ali Trading Sdn Bhd'' \<and> \<not> exact_price_match ali70
   \<and> undecided_model (asc ''ali trading'') [ali70, ali70] (Some 70) = Text (asc ''no idea'')
   \<and> py_upper sample_unicode (py_strip sample_unicode (asc ''no idea'')) \<noteq> asc ''NONE''
   \<and> \<not> py_in (py_lower sample_unicode (customer_name ali70))
          (py_lower sample_unicode (py_strip sample_unicode (asc ''no idea'')))
   \<and> ai_choose_best_match_with_price sample_unicode (Some undecided_model) (asc ''ali trading'')
        [ali70, ali70] (Some 70) = None
   \<and> ai_choose_best_match_with_price sample_unicode None (asc ''ali trading'')
        [ali70, ali70] (Some 70) = Some (asc ''Ali Trading Sdn Bhd'')
   \<and> find_best_customer_match sample_unicode sample_extract sample_customers
        (Some undecided_model) (asc ''ali trading'') (Some 70) = Inr (new_customer_detected 0)"
proof -
  have a: "take 3 (all_candidates_of (Some 70)
       (search_similar_customers sample_unicode sample_extract sample_customers
          (asc ''ali trading'') 10)) = [ali70, ali70]"
    by (simp only: sample_search sample_all70) simp
  have b: "customer_name ali70 = asc ''Ali Trading Sdn Bhd''" "\<not> exact_price_match ali70"
    by (simp_all add: ali70_def)
  have c: "undecided_model (asc ''ali trading'') [ali70, ali70] (Some 70) = Text (asc ''no idea'')"
    by (simp add: undecided_model_def)
  have d: "py_upper sample_unicode (py_strip sample_unicode (asc ''no idea'')) \<noteq> asc ''NONE''"
    by code_simp
  have e: "\<not> py_in (py_lower sample_unicode (customer_name ali70))
          (py_lower sample_unicode (py_strip sample_unicode (asc ''no idea'')))"
    by code_simp
  have f: "ai_choose_best_match_with_price sample_unicode (Some undecided_model)
        (asc ''ali trading'') [ali70, ali70] (Some 70) = None"
    by code_simp
  have g: "ai_choose_best_match_with_price sample_unicode None (asc ''ali trading'')
        [ali70, ali70] (Some 70) = Some (asc ''Ali Trading Sdn Bhd'')"
    by code_simp
  have h: "find_best_customer_match sample_unicode sample_extract sample_customers
        (Some undecided_model) (asc ''ali trading'') (Some 70) = Inr (new_customer_detected 0)"
    by code_simp
  show ?thesis using a b c d e f g h by blast
qed

text \<open>
  Claim C4 (amended): for a non-empty list of top candidates, when the arbiter is
  unavailable or raises an error the step selects the first candidate with an exact price
  match if there is one and the top candidate otherwise; when the arbiter gives an answer
  that names no candidate and is not \<open>NONE\<close> the step selects the first candidate with an
  exact price match if there is one and selects nothing otherwise.
\<close>

theorem arbiter_fallback:
  assumes "candidates \<noteq> []"
  shows "(model = None \<or> (\<exists>g. model = Some g \<and> g orig candidates price = Raises) \<longrightarrow>
            ai_choose_best_match_with_price U model orig candidates price =
              Some (customer_name (case find exact_price_match candidates of
                                     Some e \<Rightarrow> e | None \<Rightarrow> hd candidates)))
       \<and> (\<forall>g t. model = Some g \<and> g orig candidates price = Text t
                 \<and> py_upper U (py_strip U t) \<noteq> asc ''NONE''
                 \<and> (\<forall>c\<in>set candidates.
                        \<not> py_in (py_lower U (customer_name c)) (py_lower U (py_strip U t)))
              \<longrightarrow> ai_choose_best_match_with_price U model orig candidates price =
                    map_option customer_name (find exact_price_match candidates))"
proof -
  have fb: "fallback_choice candidates =
      Some (customer_name (case find exact_price_match candidates of
                             Some e \<Rightarrow> e | None \<Rightarrow> hd candidates))"
    using assms
    by (cases candidates) (simp_all add: fallback_choice_def first_exact_def split: option.splits)
  have a: "model = None \<or> (\<exists>g. model = Some g \<and> g orig candidates price = Raises) \<longrightarrow>
            ai_choose_best_match_with_price U model orig candidates price =
              Some (customer_name (case find exact_price_match candidates of
                                     Some e \<Rightarrow> e | None \<Rightarrow> hd candidates))"
    using assms fb by (auto simp: ai_choose_best_match_with_price_def)
  have b: "\<forall>g t. model = Some g \<and> g orig candidates price = Text t
                 \<and> py_upper U (py_strip U t) \<noteq> asc ''NONE''
                 \<and> (\<forall>c\<in>set candidates.
                        \<not> py_in (py_lower U (customer_name c)) (py_lower U (py_strip U t)))
              \<longrightarrow> ai_choose_best_match_with_price U model orig candidates price =
                    map_option customer_name (find exact_price_match candidates)"
  proof (intro allI impI)
    fix g t
    assume h: "model = Some g \<and> g orig candidates price = Text t
                 \<and> py_upper U (py_strip U t) \<noteq> asc ''NONE''
                 \<and> (\<forall>c\<in>set candidates.
                        \<not> py_in (py_lower U (customer_name c)) (py_lower U (py_strip U t)))"
    then have "find (names_candidate U (py_strip U t)) candidates = None"
      by (simp add: find_None_iff names_candidate_def)
    then show "ai_choose_best_match_with_price U model orig candidates price =
                    map_option customer_name (find exact_price_match candidates)"
      using h assms
      by (simp add: ai_choose_best_match_with_price_def Let_def first_exact_def
          split: option.splits)
  qed
  show ?thesis using a b by blast
qed

text \<open>On the sample catalogue and the price 80, where \<open>Abu Transport\<close> is the exact price
  match: the absent arbiter and the undecided one both select it.\<close>

theorem arbiter_fallback_witness:
  "find exact_price_match [abu80, ali80, ali80] = Some abu80
   \<and> undecided_model (asc ''ali trading'') [abu80, ali80, ali80] (Some 80) = Text (asc ''no idea'')
   \<and> py_upper sample_unicode (py_strip sample_unicode (asc ''no idea'')) \<noteq> asc ''NONE''
   \<and> list_all (\<lambda>c. \<not> py_in (py_lower sample_unicode (customer_name c))
                        (py_lower sample_unicode (py_strip sample_unicode (asc ''no idea''))))
        [abu80, ali80, ali80]
   \<and> ai_choose_best_match_with_price sample_unicode None (asc ''ali trading'')
        [abu80, ali80, ali80] (Some 80) = Some (asc ''Abu Transport'')
   \<and> ai_choose_best_match_with_price sample_unicode (Some undecided_model) (asc ''ali trading'')
        [abu80, ali80, ali80] (Some 80) = Some (asc ''Abu Transport'')"
proof -
  let ?top = "[abu80, ali80, ali80]"
  have ne: "?top \<noteq> []" by simp
  have fe: "find exact_price_match ?top = Some abu80" by (simp add: abu80_def)
  have nm: "customer_name abu80 = asc ''Abu Transport''" by (simp add: abu80_def)
  have t: "undecided_model (asc ''ali trading'') ?top (Some 80) = Text (asc ''no idea'')"
    by (simp add: undecided_model_def)
  have u: "py_upper sample_unicode (py_strip sample_unicode (asc ''no idea'')) \<noteq> asc ''NONE''"
    by code_simp
  have l: "list_all (\<lambda>c. \<not> py_in (py_lower sample_unicode (customer_name c))
                        (py_lower sample_unicode (py_strip sample_unicode (asc ''no idea''))))
        ?top"
    by code_simp
  then have n: "\<forall>c\<in>set ?top. \<not> py_in (py_lower sample_unicode (customer_name c))
                        (py_lower sample_unicode (py_strip sample_unicode (asc ''no idea'')))"
    by (simp only: list_all_iff)
  note fb = arbiter_fallback [OF ne, where U = sample_unicode and orig = "asc ''ali trading''"
      and price = "Some 80"]
  have "ai_choose_best_match_with_price sample_unicode None (asc ''ali trading'') ?top (Some 80)
             = Some (customer_name (case find exact_price_match ?top of
                                      Some e \<Rightarrow> e | None \<Rightarrow> hd ?top))"
    using fb [where model = None] by blast
  then have 1: "ai_choose_best_match_with_price sample_unicode None (asc ''ali trading'') ?top
             (Some 80) = Some (asc ''Abu Transport'')"
    by (simp only: fe option.case nm)
  have "ai_choose_best_match_with_price sample_unicode (Some undecided_model)
          (asc ''ali trading'') ?top (Some 80)
             = map_option customer_name (find exact_price_match ?top)"
    using fb [where model = "Some undecided_model"] t u n by blast
  then have 2: "ai_choose_best_match_with_price sample_unicode (Some undecided_model)
          (asc ''ali trading'') ?top (Some 80) = Some (asc ''Abu Transport'')"
    by (simp only: fe option.map nm)
  show ?thesis using fe t u l 1 2 by blast
qed

section \<open>Idempotence of the name normaliser\<close>

text \<open>
  Claim C5 (as stated): the name normaliser is idempotent,
  \<open>normalize (normalize x) = normalize x\<close> for every input. It is not, for two reasons.
  The prefix loop tries each honorific once, in list order, so an honorific standing
  behind one that comes later in the list survives the first call and is removed by the
  second: \<open>dr. mr. lee\<close> becomes \<open>mr. lee\<close> and then \<open>lee\<close>. And NFKC normalisation
  runs after lower-casing and after the character filter, so what it produces is
  lower-cased and filtered only by a second call: the letter U+2102 becomes \<open>C\<close> and then
  \<open>c\<close>.
\<close>

theorem clean_name_not_idempotent:
  "clean_name_for_matching sample_unicode (clean_name_for_matching sample_unicode (asc ''dr. mr. lee''))
     \<noteq> clean_name_for_matching sample_unicode (asc ''dr. mr. lee'')
   \<and> clean_name_for_matching sample_unicode (asc ''dr. mr. lee'') = asc ''mr. lee''
   \<and> clean_name_for_matching sample_unicode (asc ''mr. lee'') = asc ''lee''
   \<and> clean_name_for_matching sample_unicode (clean_name_for_matching sample_unicode [8450])
     \<noteq> clean_name_for_matching sample_unicode [8450]
   \<and> clean_name_for_matching sample_unicode [8450] = asc ''C''
   \<and> clean_name_for_matching sample_unicode (asc ''C'') = asc ''c''"
  by code_simp

text \<open>
  Claim C5 (amended): for every string \<open>x\<close>, applying \<open>clean_name_for_matching\<close> to the
  first result \<open>y = clean_name_for_matching x\<close> gives \<open>y\<close> again whenever \<open>y\<close> begins with
  none of the listed honorifics, ends with none of the listed company suffixes and is
  left as it is by lower-casing, by the character filter and by NFKC normalisation; the
  last three hold for every ASCII \<open>x\<close>.
\<close>

theorem clean_name_idempotent_when_stable:
  assumes "\<forall>p\<in>set prefixes_to_remove. \<not> startswith (clean_name_for_matching U x) p"
    and "\<forall>p\<in>set suffixes_to_remove. \<not> endswith (clean_name_for_matching U x) p"
    and "ascii_text x \<or> unicode_stable U (clean_name_for_matching U x)"
  shows "clean_name_for_matching U (clean_name_for_matching U x) = clean_name_for_matching U x"
proof -
  have st: "unicode_stable U (clean_name_for_matching U x)"
    using assms(3) ascii_clean_stable by blast
  obtain z where "clean_name_for_matching U x = join_space (py_split U z)"
    using clean_name_shape by blast
  then show ?thesis using st assms(1,2) by (rule stable_fixed [rotated 3])
qed

text \<open>An ASCII name with a company suffix, and a name of two CJK ideographs (U+4E2D,
  U+56FD), which lower-casing and NFKC leave as they are.\<close>

theorem clean_name_idempotent_when_stable_witness:
  "ascii_text (asc ''  Ahmad   Sdn Bhd'')
   \<and> clean_name_for_matching sample_unicode (asc ''  Ahmad   Sdn Bhd'') = asc ''ahmad''
   \<and> list_all (\<lambda>p. \<not> startswith (asc ''ahmad'') p) prefixes_to_remove
   \<and> list_all (\<lambda>p. \<not> endswith (asc ''ahmad'') p) suffixes_to_remove
   \<and> clean_name_for_matching sample_unicode
        (clean_name_for_matching sample_unicode (asc ''  Ahmad   Sdn Bhd''))
      = clean_name_for_matching sample_unicode (asc ''  Ahmad   Sdn Bhd'')
   \<and> \<not> ascii_text [20013, 22269]
   \<and> clean_name_for_matching sample_unicode [20013, 22269] = [20013, 22269]
   \<and> unicode_stable sample_unicode [20013, 22269]
   \<and> clean_name_for_matching sample_unicode
        (clean_name_for_matching sample_unicode [20013, 22269])
      = clean_name_for_matching sample_unicode [20013, 22269]"
proof -
  have v: "clean_name_for_matching sample_unicode (asc ''  Ahmad   Sdn Bhd'') = asc ''ahmad''"
    by code_simp
  have a: "ascii_text (asc ''  Ahmad   Sdn Bhd'')" by code_simp
  have p: "list_all (\<lambda>p. \<not> startswith (asc ''ahmad'') p) prefixes_to_remove" by code_simp
  have s: "list_all (\<lambda>p. \<not> endswith (asc ''ahmad'') p) suffixes_to_remove" by code_simp
  have p': "\<forall>p\<in>set prefixes_to_remove.
      \<not> startswith (clean_name_for_matching sample_unicode (asc ''  Ahmad   Sdn Bhd'')) p"
    unfolding v using p by (simp only: list_all_iff)
  have s': "\<forall>p\<in>set suffixes_to_remove.
      \<not> endswith (clean_name_for_matching sample_unicode (asc ''  Ahmad   Sdn Bhd'')) p"
    unfolding v using s by (simp only: list_all_iff)
  have 1: "clean_name_for_matching sample_unicode
        (clean_name_for_matching sample_unicode (asc ''  Ahmad   Sdn Bhd''))
      = clean_name_for_matching sample_unicode (asc ''  Ahmad   Sdn Bhd'')"
    using a by (intro clean_name_idempotent_when_stable [OF p' s']) simp
  have w: "clean_name_for_matching sample_unicode [20013, 22269] = [20013, 22269]"
    by code_simp
  have na: "\<not> ascii_text [20013, 22269]" by (simp add: ascii_text_def)
  have us: "unicode_stable sample_unicode [20013, 22269]"
    by (simp add: unicode_stable_def py_lower_def ascii_text_def normalize_NFKC_def
        re_sub_special_def kept_char_def sample_unicode_def)
  have q: "list_all (\<lambda>p. \<not> startswith [20013, 22269] p) prefixes_to_remove" by code_simp
  have t: "list_all (\<lambda>p. \<not> endswith [20013, 22269] p) suffixes_to_remove" by code_simp
  have q': "\<forall>p\<in>set prefixes_to_remove.
      \<not> startswith (clean_name_for_matching sample_unicode [20013, 22269]) p"
    unfolding w using q by (simp only: list_all_iff)
  have t': "\<forall>p\<in>set suffixes_to_remove.
      \<not> endswith (clean_name_for_matching sample_unicode [20013, 22269]) p"
    unfolding w using t by (simp only: list_all_iff)
  have 2: "clean_name_for_matching sample_unicode
        (clean_name_for_matching sample_unicode [20013, 22269])
      = clean_name_for_matching sample_unicode [20013, 22269]"
  proof (rule clean_name_idempotent_when_stable [OF q' t'])
    show "ascii_text [20013, 22269]
            \<or> unicode_stable sample_unicode (clean_name_for_matching sample_unicode [20013, 22269])"
      using us by (simp only: w simp_thms)
  qed
  show ?thesis using a v p s 1 na w us 2 by simp
qed

section \<open>Weight computed back from the total\<close>




section \<open>The override for the catch-all service\<close>



section \<open>The split amounts of a loaded customer\<close>

text \<open>
  Claim C8 (as stated): for every customer loaded from the knowledge base with both
  amounts present, \<open>company_amount + worker_amount\<close> equals the price within rounding
  tolerance. A positive number in the worker column is taken as it stands: the row
  (Ali Trading, 100, 60, 30) loads with 60 + 30 = 90 against the price 100.
\<close>

theorem loaded_amounts_need_not_add_up:
  "load_from_excel sample_unicode sample_py sample_sheet = Inr sample_loaded
   \<and> price_per_ton (sample_loaded ! 0) = 100
   \<and> company_amount (sample_loaded ! 0) = Some 60
   \<and> worker_amount (sample_loaded ! 0) = Some 30
   \<and> \<not> \<bar>(60::real) + 30 - 100\<bar> \<le> 1/200"
proof -
  have "load_from_excel sample_unicode sample_py sample_sheet = Inr sample_loaded"
    by code_simp
  then show ?thesis by (simp add: sample_loaded_def)
qed

text \<open>
  Claim C8 (amended): every customer loaded from the knowledge base comes from a data row,
  and for that row: if the worker column holds a positive number, \<open>worker_amount\<close> is that
  number rounded to 2 decimals, whatever the price; otherwise, if \<open>company_amount\<close> is
  present and the price is positive, \<open>worker_amount\<close> is the price minus
  \<open>company_amount\<close> rounded to 2 decimals, so that the two amounts add up to the price
  within 0.005; otherwise \<open>worker_amount\<close> is absent.
\<close>

theorem worker_amount_of_loaded_customer:
  assumes "load_from_excel U py sheet = Inr customers" "c \<in> set customers"
  shows "\<exists>row\<in>set (tl sheet).
           read_row U py (scan_header U (hd sheet)) row = Some c \<and>
           (case worker_cell py (scan_header U (hd sheet)) row of
              Some w \<Rightarrow> worker_amount c = Some (py_round2 w)
            | None \<Rightarrow>
                (case company_amount c of
                   Some ca \<Rightarrow>
                     if 0 < price_per_ton c
                     then worker_amount c = Some (py_round2 (price_per_ton c - ca))
                          \<and> \<bar>ca + py_round2 (price_per_ton c - ca) - price_per_ton c\<bar> \<le> 1/200
                     else worker_amount c = None
                 | None \<Rightarrow> worker_amount c = None))"
proof -
  obtain row where r: "row \<in> set (tl sheet)" "read_row U py (scan_header U (hd sheet)) row = Some c"
    using load_rows [OF assms] by blast
  show ?thesis using r read_row_worker [OF r(2)] by blast
qed

text \<open>The second row of the sample sheet has an empty worker cell: the amount 30 is
  derived from 80 - 50.\<close>

theorem worker_amount_of_loaded_customer_witness:
  "load_from_excel sample_unicode sample_py sample_sheet = Inr sample_loaded
   \<and> worker_cell sample_py (scan_header sample_unicode (hd sample_sheet)) (sample_sheet ! 2) = None
   \<and> price_per_ton (sample_loaded ! 1) = 80
   \<and> company_amount (sample_loaded ! 1) = Some 50
   \<and> worker_amount (sample_loaded ! 1) = Some 30
   \<and> py_round2 (80 - 50) = 30
   \<and> (\<exists>row\<in>set (tl sample_sheet).
         read_row sample_unicode sample_py (scan_header sample_unicode (hd sample_sheet)) row
           = Some (sample_loaded ! 1))"
proof -
  have m: "sample_loaded ! 1 \<in> set sample_loaded" by (simp add: sample_loaded_def)
  have w: "worker_cell sample_py (scan_header sample_unicode (hd sample_sheet)) (sample_sheet ! 2)
             = None"
    by code_simp
  have f: "price_per_ton (sample_loaded ! 1) = 80" "company_amount (sample_loaded ! 1) = Some 50"
    "worker_amount (sample_loaded ! 1) = Some 30"
    by (simp_all add: sample_loaded_def)
  have r: "py_round2 (80 - 50) = 30" by code_simp
  from worker_amount_of_loaded_customer [OF sample_load m]
  have "\<exists>row\<in>set (tl sample_sheet).
         read_row sample_unicode sample_py (scan_header sample_unicode (hd sample_sheet)) row
           = Some (sample_loaded ! 1)" by blast
  then show ?thesis using sample_load w f r by blast
qed

section \<open>Totality of the arbitration\<close>

text \<open>
  Claim C9: arbitration is total. For every name, the empty one included, every price, the
  missing one included, every catalogue, every behaviour of the fuzzy scorer (an exception
  included) and every behaviour of the arbiter (absence and exceptions included),
  \<open>find_best_customer_match\<close> returns a decision and raises nothing; for the empty name
  the decision is \<open>no_name_provided\<close>.
\<close>

theorem arbitration_total:
  "(\<exists>d. find_best_customer_match U extract customers model n price = Inr d)
   \<and> find_best_customer_match U extract customers model [] price = Inr (no_name_provided 0)"
proof -
  have "\<exists>d. find_best_customer_match U extract customers model n price = Inr d"
    using decide_total [OF refl]
    by (simp add: find_best_customer_match_def Let_def)
  moreover have "find_best_customer_match U extract customers model [] price
                   = Inr (no_name_provided 0)"
    by (simp add: find_best_customer_match_def)
  ultimately show ?thesis by blast
qed

text \<open>With a fuzzy scorer that raises and no price, the decision is
  \<open>new_customer_detected\<close>.\<close>

theorem arbitration_total_witness:
  "find_best_customer_match sample_unicode (\<lambda>q choices k. None) sample_customers
       (Some undecided_model) (asc ''ali trading'') None = Inr (new_customer_detected 0)
   \<and> (\<exists>d. find_best_customer_match sample_unicode (\<lambda>q choices k. None) sample_customers
           (Some undecided_model) (asc ''ali trading'') None = Inr d)
   \<and> find_best_customer_match sample_unicode (\<lambda>q choices k. None) sample_customers
        (Some undecided_model) [] None = Inr (no_name_provided 0)"
proof -
  have "find_best_customer_match sample_unicode (\<lambda>q choices k. None) sample_customers
       (Some undecided_model) (asc ''ali trading'') None = Inr (new_customer_detected 0)"
    by code_simp
  then show ?thesis
    using arbitration_total [of sample_unicode "\<lambda>q choices k. None" sample_customers
        "Some undecided_model" "asc ''ali trading''" None]
    by blast
qed

section \<open>Duplicate cleaned names\<close>

text \<open>
  Claim C10: every result of \<open>find_customer_matches\<close> is built from the first customer,
  in catalogue order, whose cleaned name equals the match string returned by the fuzzy
  scorer; a later customer with the same cleaned name is never the source of a result.
\<close>

theorem first_customer_with_cleaned_name:
  assumes "r \<in> set (find_customer_matches U extract customers q k)"
  shows "\<exists>matches mn sc i.
           extract (clean_name_for_matching U q)
                   (map (\<lambda>c. clean_name_for_matching U (name c)) customers) k = Some matches
           \<and> (mn, sc) \<in> set matches
           \<and> i < length customers
           \<and> clean_name_for_matching U (name (customers ! i)) = mn
           \<and> (\<forall>j<i. clean_name_for_matching U (name (customers ! j)) \<noteq> mn)
           \<and> r = result_of (customers ! i) sc"
  using assms by (rule find_customer_matches_origin)

text \<open>In the sample catalogue the first two customers share the cleaned name
  \<open>ali trading\<close>: both matches for it resolve to the first, and the second customer,
  whose price is 80, is not among the results.\<close>

theorem first_customer_with_cleaned_name_witness:
  "find_customer_matches sample_unicode sample_extract sample_customers (asc ''ali trading'') 10
     = [result_of (sample_customers ! 0) 100, result_of (sample_customers ! 0) 100,
        result_of (sample_customers ! 2) 60]
   \<and> clean_name_for_matching sample_unicode (name (sample_customers ! 1))
       = clean_name_for_matching sample_unicode (name (sample_customers ! 0))
   \<and> (\<exists>matches mn sc i.
           sample_extract (clean_name_for_matching sample_unicode (asc ''ali trading''))
             (map (\<lambda>c. clean_name_for_matching sample_unicode (name c)) sample_customers) 10
             = Some matches
           \<and> (mn, sc) \<in> set matches
           \<and> i < length sample_customers
           \<and> clean_name_for_matching sample_unicode (name (sample_customers ! i)) = mn
           \<and> (\<forall>j<i. clean_name_for_matching sample_unicode (name (sample_customers ! j)) \<noteq> mn)
           \<and> result_of (sample_customers ! 0) 100 = result_of (sample_customers ! i) sc)"
proof -
  have v: "find_customer_matches sample_unicode sample_extract sample_customers
             (asc ''ali trading'') 10
     = [result_of (sample_customers ! 0) 100, result_of (sample_customers ! 0) 100,
        result_of (sample_customers ! 2) 60]"
    by (simp only: sample_matches sample_results_def)
  have e: "clean_name_for_matching sample_unicode (name (sample_customers ! 1))
       = clean_name_for_matching sample_unicode (name (sample_customers ! 0))" by code_simp
  have "result_of (sample_customers ! 0) 100
          \<in> set (find_customer_matches sample_unicode sample_extract sample_customers
                   (asc ''ali trading'') 10)"
    unfolding v by simp
  from first_customer_with_cleaned_name [OF this] v e show ?thesis by blast
qed


end
